theory Spec2Isabelle
  imports Complex_Main "HOL-Library.Log_Nat"
begin

section \<open>Signature derivation (qimessaging/metaobjectbuilder.hpp)\<close>

subsection \<open>C++ types and the type transformations of the header\<close>

text \<open>
  The template code computes on C++ types. A parameter or result type is an object
  type (named here by its spelling), possibly const-qualified, possibly taken by
  reference: \<open>T\<close> is \<open>CType False False T\<close>, \<open>T&\<close> is \<open>CType True False T\<close>,
  \<open>const T&\<close> is \<open>CType True True T\<close>.
\<close>

datatype CType = CType (is_reference: bool) (is_const: bool) (type_name: string)

text \<open>\<open>boost::remove_reference\<close>: \<open>T&\<close> becomes \<open>T\<close>, qualifiers of \<open>T\<close> kept.\<close>

fun remove_reference :: "CType \<Rightarrow> CType" where
  "remove_reference (CType r c n) = CType False c n"

text \<open>\<open>boost::remove_const\<close>: strips a top-level const only; a reference type has
  none, so \<open>const T&\<close> is left as it is.\<close>

fun remove_const :: "CType \<Rightarrow> CType" where
  "remove_const (CType r c n) = (if r then CType r c n else CType r False n)"

text \<open>\<open>boost::add_pointer\<close>: pointer to the type with its reference removed.\<close>

datatype CPointer = PointerTo CType

definition add_pointer :: "CType \<Rightarrow> CPointer" where
  "add_pointer t = PointerTo (remove_reference t)"

text \<open>
  A callable's type: a free function type (also the \<open>T\<close> of \<open>boost::function<T>\<close>),
  or a pointer to member function of a class. \<open>boost::function_types::parameter_types\<close>
  of a member function pointer starts with a reference to the class.
\<close>

datatype CallableType =
    Function CType "CType list"
  | MemberFunction string CType "CType list"

fun parameter_types :: "CallableType \<Rightarrow> CType list" where
  "parameter_types (Function r ps) = ps"
| "parameter_types (MemberFunction c r ps) = CType True False c # ps"

fun result_type :: "CallableType \<Rightarrow> CType" where
  "result_type (Function r ps) = r"
| "result_type (MemberFunction c r ps) = r"

text \<open>\<open>boost::mpl::pop_front\<close> (instantiated on non-empty sequences only).\<close>

definition pop_front :: "'a list \<Rightarrow> 'a list" where
  "pop_front xs = tl xs"

text \<open>
  \<open>detail::signature_function_arg_apply\<close>: the functor holds the output stream;
  \<open>operator()(T *x)\<close> appends \<open>metaTypeOf<T>()->signature()\<close>. The table of type
  signatures (\<open>metaTypeOf\<close>) is not part of the header and is a parameter.
\<close>

fun signature_function_arg_apply :: "(CType \<Rightarrow> string) \<Rightarrow> CPointer \<Rightarrow> string \<Rightarrow> string" where
  "signature_function_arg_apply metaTypeOf (PointerTo T) val = val @ metaTypeOf T"

text \<open>
  \<open>boost::mpl::for_each< transform_view<ArgsType, F> >(f)\<close>: calls \<open>f\<close> on a value of
  each transformed type, in sequence order.
\<close>

definition for_each_transformed :: "('a \<Rightarrow> 'b) \<Rightarrow> 'a list \<Rightarrow> ('b \<Rightarrow> 's \<Rightarrow> 's) \<Rightarrow> 's \<Rightarrow> 's" where
  "for_each_transformed F args f s = fold f (map F args) s"

text \<open>The transformation all overloads use:
  \<open>add_pointer<remove_const<remove_reference<_1>>>\<close>.\<close>

definition arg_transform :: "CType \<Rightarrow> CPointer" where
  "arg_transform t = add_pointer (remove_const (remove_reference t))"

subsection \<open>The registry under construction\<close>

text \<open>A registered callable: a handle of a native function, of an object and its
  member function, or the C binding's closure over \<open>c_call\<close>.\<close>

datatype MetaFunction =
    makeFunctor nat
  | makeMethodFunctor nat nat
  | bind_c_call string nat nat

record MetaMethod =
  sigreturn :: string
  signature :: string
  mfunctor :: MetaFunction

record MetaObject =
  methodsMap :: "int \<Rightarrow> MetaMethod option"
  nameToIdx :: "string \<Rightarrow> int option"
  nextNumber :: int

definition emptyMetaObject :: MetaObject where
  "emptyMetaObject = \<lparr>methodsMap = (\<lambda>i. None), nameToIdx = (\<lambda>s. None), nextNumber = 0\<rparr>"

text \<open>
  Modelled from the spec: \<open>xAdvertiseMethod\<close> is declared in the header and defined
  elsewhere. It registers the method under the next free id and returns the id;
  re-registering a signature that is already present is a builder-time error,
  reported to the caller (here by the sentinel \<open>-1\<close>, the registry unchanged).
\<close>

definition xAdvertiseMethod :: "string \<Rightarrow> string \<Rightarrow> MetaFunction \<Rightarrow> MetaObject \<Rightarrow> int \<times> MetaObject" where
  "xAdvertiseMethod retsig sig func mo =
     (case nameToIdx mo sig of
        Some i \<Rightarrow> (-1, mo)
      | None \<Rightarrow>
          (nextNumber mo,
           mo\<lparr>methodsMap := (methodsMap mo)(nextNumber mo \<mapsto>
                   \<lparr>sigreturn = retsig, signature = sig, mfunctor = func\<rparr>),
              nameToIdx := (nameToIdx mo)(sig \<mapsto> nextNumber mo),
              nextNumber := nextNumber mo + 1\<rparr>))"

text \<open>The overloads return \<open>unsigned int\<close>: the \<open>int\<close> is converted modulo \<open>2^32\<close>.\<close>

definition to_unsigned_int :: "int \<Rightarrow> int" where
  "to_unsigned_int i = i mod 2 ^ 32"

subsection \<open>The three \<open>advertiseMethod\<close> overloads\<close>

text \<open>\<open>advertiseMethod(name, function)\<close>, lines 70-91.\<close>

definition advertiseMethod ::
  "(CType \<Rightarrow> string) \<Rightarrow> string \<Rightarrow> CallableType \<Rightarrow> nat \<Rightarrow> MetaObject \<Rightarrow> int \<times> MetaObject" where
  "advertiseMethod metaTypeOf name FUNCTION_TYPE function mo =
     (let sig0 = name @ ''::('';
          ArgsType = parameter_types FUNCTION_TYPE;
          sig1 = for_each_transformed arg_transform ArgsType
                   (signature_function_arg_apply metaTypeOf) sig0;
          sig2 = sig1 @ '')'';
          sigret = metaTypeOf (result_type FUNCTION_TYPE);
          (r, mo') = xAdvertiseMethod sigret sig2 (makeFunctor function) mo
      in (to_unsigned_int r, mo'))"

text \<open>\<open>advertiseMethod(name, boost::function<T>)\<close>, lines 93-113.\<close>

definition advertiseMethod_boost ::
  "(CType \<Rightarrow> string) \<Rightarrow> string \<Rightarrow> CallableType \<Rightarrow> nat \<Rightarrow> MetaObject \<Rightarrow> int \<times> MetaObject" where
  "advertiseMethod_boost metaTypeOf name T function mo =
     (let sig0 = name @ ''::('';
          ArgsType = parameter_types T;
          sig1 = for_each_transformed arg_transform ArgsType
                   (signature_function_arg_apply metaTypeOf) sig0;
          sig2 = sig1 @ '')'';
          sigret = metaTypeOf (result_type T);
          (r, mo') = xAdvertiseMethod sigret sig2 (makeFunctor function) mo
      in (to_unsigned_int r, mo'))"

text \<open>\<open>advertiseMethod(name, object, method)\<close>, lines 132-153.\<close>

definition advertiseMethod_member ::
  "(CType \<Rightarrow> string) \<Rightarrow> string \<Rightarrow> nat \<Rightarrow> CallableType \<Rightarrow> nat \<Rightarrow> MetaObject \<Rightarrow> int \<times> MetaObject" where
  "advertiseMethod_member metaTypeOf name object METHOD_TYPE method mo =
     (let sig0 = name @ ''::('';
          MemArgsType = parameter_types METHOD_TYPE;
          ArgsType = pop_front MemArgsType;
          sig1 = for_each_transformed arg_transform ArgsType
                   (signature_function_arg_apply metaTypeOf) sig0;
          sig2 = sig1 @ '')'';
          sigret = metaTypeOf (result_type METHOD_TYPE);
          (r, mo') = xAdvertiseMethod sigret sig2 (makeMethodFunctor object method) mo
      in (to_unsigned_int r, mo'))"

subsection \<open>The signature as the specification words it\<close>

text \<open>
  The specification's envelope: the name, \<open>::(\<close>, the parameters' signature tokens
  in parameter order, \<open>)\<close>. A parameter's token is the signature of its type with
  reference and const removed.
\<close>

definition param_token :: "(CType \<Rightarrow> string) \<Rightarrow> CType \<Rightarrow> string" where
  "param_token metaTypeOf p = metaTypeOf (remove_const (remove_reference p))"

definition spec_signature :: "string \<Rightarrow> string list \<Rightarrow> string" where
  "spec_signature name tokens = name @ ''::('' @ concat tokens @ '')''"

section \<open>The C binding (c/src/object_c.cpp)\<close>

type_synonym Buffer = string

text \<open>A future is not yet set, holds a value, or holds an error.\<close>

datatype 'a Future = Pending | Value 'a | Error string

text \<open>What the binding can do outside the future channel: fault.\<close>

datatype Fault = NullPointerDereference | IndexOutOfRange

record qi_message_data_t =
  buff :: Buffer

text \<open>
  An object: its meta-object and its \<open>xMetaCall\<close> (declared in genericobject.hpp,
  defined elsewhere: a field of the object here, taking the return signature, the
  signature and the parameter buffer).
\<close>

record GenericObject_c =
  metaObject :: MetaObject
  xMetaCall :: "string \<Rightarrow> string \<Rightarrow> Buffer \<Rightarrow> Buffer Future"

text \<open>
  Modelled from the spec: \<open>MetaObject::methodId\<close> is the reverse lookup from a full
  signature to the id, \<open>-1\<close> for a signature that is not registered;
  \<open>MetaObject::method\<close> returns a pointer to the method of an id, null (\<open>None\<close>)
  when the id has no method.
\<close>

definition methodId :: "MetaObject \<Rightarrow> string \<Rightarrow> int" where
  "methodId mo sig = (case nameToIdx mo sig of None \<Rightarrow> -1 | Some i \<Rightarrow> i)"

definition method_of :: "MetaObject \<Rightarrow> int \<Rightarrow> MetaMethod option" where
  "method_of mo i = methodsMap mo i"

text \<open>\<open>qiFutureCAdapter\<close>, lines 21-30: runs when the call's future is set.\<close>

fun qiFutureCAdapter :: "Buffer Future \<Rightarrow> qi_message_data_t Future" where
  "qiFutureCAdapter (Error e) = Error e"
| "qiFutureCAdapter (Value b) = Value \<lparr>buff = b\<rparr>"
| "qiFutureCAdapter Pending = Pending"

text \<open>
  \<open>qi_object_call\<close>, lines 45-63. \<open>mm->sigreturn()\<close> dereferences the pointer
  \<open>method\<close> returned, with no check: a null pointer faults there, before any
  future exists.
\<close>

definition qi_object_call ::
  "GenericObject_c \<Rightarrow> string \<Rightarrow> qi_message_data_t \<Rightarrow> Fault + qi_message_data_t Future" where
  "qi_object_call obj signature_c message =
     (let methodId = methodId (metaObject obj) signature_c;
          mm = method_of (metaObject obj) methodId
      in case mm of
           None \<Rightarrow> Inl NullPointerDereference
         | Some m \<Rightarrow>
             (let res = xMetaCall obj (sigreturn m) signature_c (buff message)
              in Inr (qiFutureCAdapter res)))"

text \<open>
  \<open>qi_object_builder_register_method\<close>, lines 106-119. \<open>qi::signatureSplit\<close> is
  defined elsewhere and is a parameter; the vector it returns is indexed at 0, 1
  and 2 unchecked.
\<close>

definition qi_object_builder_register_method ::
  "(string \<Rightarrow> string list) \<Rightarrow> MetaObject \<Rightarrow> string \<Rightarrow> nat \<Rightarrow> nat \<Rightarrow> Fault + (int \<times> MetaObject)" where
  "qi_object_builder_register_method signatureSplit ob complete_signature func data =
     (let sigInfo = signatureSplit complete_signature
      in if length sigInfo < 3 then Inl IndexOutOfRange
         else
           (let sig = (sigInfo ! 1) @ ''::'' @ (sigInfo ! 2);
                (r, ob') = xAdvertiseMethod (sigInfo ! 0) sig
                             (bind_c_call complete_signature func data) ob
            in Inr (0, ob')))"

text \<open>A splitter for the examples: \<open>name::ret(params)\<close> into the return signature,
  the name and the parameter signature.\<close>

definition exampleSplit :: "string \<Rightarrow> string list" where
  "exampleSplit s =
     (let name = takeWhile (\<lambda>c. c \<noteq> CHR '':'') s;
          rest = drop (length name + 2) s
      in [takeWhile (\<lambda>c. c \<noteq> CHR ''('') rest, name, dropWhile (\<lambda>c. c \<noteq> CHR ''('') rest])"

section \<open>Erased values and their conversions (src/genericvalue.cpp)\<close>

subsection \<open>Type descriptors\<close>

text \<open>The kinds of \<open>Type::Kind\<close> that the specification lists (\<open>Type::Int\<close> is
  \<open>IntK\<close>, and so on).\<close>

datatype Kind = VoidK | IntK | FloatK | StringK | ListK | MapK | ObjectK | DynamicK

text \<open>
  A \<open>Type*\<close>: the descriptor's own address (\<open>self\<close>, what \<open>type == targetType\<close>
  compares), the type identity \<open>info()\<close>, \<open>kind()\<close>, and the virtual members the
  conversions call, whose definitions are outside genericvalue.cpp and are carried
  here as fields of the descriptor: the element type a list type creates its
  storage with, the parent table behind \<open>ObjectType::inherits\<close> (ancestor identity and
  byte offset), \<open>TypeInt::get\<close>/\<open>set\<close> on the stored integer (\<open>get\<close> widens to
  \<open>int64_t\<close>, \<open>set\<close> narrows from it), \<open>TypeFloat::get\<close>/\<open>set\<close> on the stored
  floating-point number (to and from \<open>double\<close>), and the number of storage units an
  instance of an object type occupies.
\<close>

datatype Type = Type
  (self: nat)
  (info: string)
  (kind: Kind)
  (elementTypeOf: "Type option")
  (parentTypes: "(string \<times> int) list")
  (intGet: "int \<Rightarrow> int")
  (intSet: "int \<Rightarrow> int")
  (floatGet: "real \<Rightarrow> real")
  (floatSet: "real \<Rightarrow> real")
  (objectSize: nat)

text \<open>\<open>typeOf<GenericValue>()->info()\<close> and \<open>typeOf<GenericObject>()->info()\<close>.\<close>

definition genericValueInfo :: string where
  "genericValueInfo = ''qi::GenericValue''"

definition genericObjectInfo :: string where
  "genericObjectInfo = ''qi::GenericObject''"

text \<open>
  Modelled from the spec: \<open>ObjectType::inherits(other)\<close> answers with the storage
  offset of the ancestor \<open>other\<close> inside this type, and with the sentinel \<open>-1\<close> when
  the types are unrelated.
\<close>

definition inherits :: "Type \<Rightarrow> Type \<Rightarrow> int" where
  "inherits t other = (case map_of (parentTypes t) (info other) of None \<Rightarrow> -1 | Some off \<Rightarrow> off)"

subsection \<open>Values and storage\<close>

text \<open>A \<open>GenericValue\<close>: the \<open>type\<close> pointer (null is \<open>None\<close>) and the \<open>value\<close>
  pointer, an address. \<open>GenericValue()\<close> has neither.\<close>

record GenericValue =
  gv_type :: "Type option"
  gv_value :: int

definition GenericValue_empty :: GenericValue where
  "GenericValue_empty = \<lparr>gv_type = None, gv_value = 0\<rparr>"

text \<open>
  What a storage address holds: a native integer or floating-point number, a
  string, a list (its element type and the addresses of its elements), a
  \<open>GenericValue\<close> object, a \<open>GenericObject\<close> (a type and a value pointer as well),
  or one unit of a native object's fields. A native object occupies consecutive
  addresses, so that an ancestor sub-object starts at an offset inside it.
\<close>

datatype Cell =
    IntCell int
  | FloatCell real
  | StringCell string
  | ListCell Type "int list"
  | ValueCell GenericValue
  | ObjectCell GenericValue
  | FieldCell int

text \<open>The store: the cells, the next address never handed out yet, and the
  warnings logged so far (\<open>qiLogWarning\<close>; \<open>qiLogDebug\<close> lines are not recorded).\<close>

record Heap =
  cells :: "int \<Rightarrow> Cell option"
  nxt :: int
  logged :: "string list"

definition alloc :: "Cell \<Rightarrow> Heap \<Rightarrow> int \<times> Heap" where
  "alloc c h = (nxt h, h\<lparr>cells := (cells h)(nxt h \<mapsto> c), nxt := nxt h + 1\<rparr>)"

definition allocBlock :: "Cell list \<Rightarrow> Heap \<Rightarrow> int \<times> Heap" where
  "allocBlock cs h =
     (nxt h,
      h\<lparr>cells := (\<lambda>a. if nxt h \<le> a \<and> a < nxt h + int (length cs)
                        then Some (cs ! nat (a - nxt h)) else cells h a),
        nxt := nxt h + max 1 (int (length cs))\<rparr>)"

definition store :: "int \<Rightarrow> Cell \<Rightarrow> Heap \<Rightarrow> Heap" where
  "store a c h = h\<lparr>cells := (cells h)(a \<mapsto> c)\<rparr>"

definition free :: "int \<Rightarrow> Heap \<Rightarrow> Heap" where
  "free a h = h\<lparr>cells := (cells h)(a := None)\<rparr>"

definition freeBlock :: "int \<Rightarrow> nat \<Rightarrow> Heap \<Rightarrow> Heap" where
  "freeBlock a n h = h\<lparr>cells := (\<lambda>b. if a \<le> b \<and> b < a + int n then None else cells h b)\<rparr>"

definition readFields :: "Heap \<Rightarrow> int \<Rightarrow> nat \<Rightarrow> int list option" where
  "readFields h a n =
     those (map (\<lambda>i. case cells h (a + int i) of Some (FieldCell w) \<Rightarrow> Some w | _ \<Rightarrow> None) [0..<n])"

text \<open>Reading one unit of a native object through a value: the unit at offset \<open>k\<close>
  from the value's storage pointer.\<close>

definition readField :: "Heap \<Rightarrow> GenericValue \<Rightarrow> int \<Rightarrow> Cell option" where
  "readField h v k = cells h (gv_value v + k)"

text \<open>
  Which representation a descriptor's storage has. The two erased wrappers are
  recognised by their type identity, as the conversions recognise them; every other
  type by its kind. The conversions look into numbers and lists only: storage of
  any other kind (an object, a map, a type of kind \<open>Dynamic\<close> other than
  \<open>GenericValue\<close>, \<open>void\<close>) is a block of \<open>objectSize\<close> units.
\<close>

datatype Shape = SValue | SObject | SInt | SFloat | SString | SList | SNative

definition shape :: "Type \<Rightarrow> Shape" where
  "shape t =
     (if info t = genericValueInfo then SValue
      else if info t = genericObjectInfo then SObject
      else case kind t of
             IntK \<Rightarrow> SInt | FloatK \<Rightarrow> SFloat | StringK \<Rightarrow> SString | ListK \<Rightarrow> SList
           | _ \<Rightarrow> SNative)"

text \<open>
  Modelled from the spec: \<open>Type::initializeStorage\<close> allocates a zero-value instance
  and returns its storage handle.
\<close>

definition initializeStorage :: "Type \<Rightarrow> Heap \<Rightarrow> (int \<times> Heap) option" where
  "initializeStorage t h =
     (case kind t of
        IntK \<Rightarrow> Some (alloc (IntCell 0) h)
      | FloatK \<Rightarrow> Some (alloc (FloatCell 0) h)
      | StringK \<Rightarrow> Some (alloc (StringCell []) h)
      | ListK \<Rightarrow> (case elementTypeOf t of
                   None \<Rightarrow> None
                 | Some e \<Rightarrow> Some (alloc (ListCell e []) h))
      | _ \<Rightarrow> Some (allocBlock (replicate (objectSize t) (FieldCell 0)) h))"

subsection \<open>Running a body over a sequence, threading the store\<close>

fun forEach :: "('a \<Rightarrow> Heap \<Rightarrow> Heap option) \<Rightarrow> 'a list \<Rightarrow> Heap \<Rightarrow> Heap option" where
  "forEach body [] h = Some h"
| "forEach body (x # xs) h = (case body x h of None \<Rightarrow> None | Some h1 \<Rightarrow> forEach body xs h1)"

fun mapH :: "('a \<Rightarrow> Heap \<Rightarrow> ('b \<times> Heap) option) \<Rightarrow> 'a list \<Rightarrow> Heap \<Rightarrow> ('b list \<times> Heap) option" where
  "mapH f [] h = Some ([], h)"
| "mapH f (x # xs) h =
     (case f x h of
        None \<Rightarrow> None
      | Some (y, h1) \<Rightarrow>
          (case mapH f xs h1 of None \<Rightarrow> None | Some (ys, h2) \<Rightarrow> Some (y # ys, h2)))"

subsection \<open>Clone and destroy\<close>

text \<open>
  Modelled from the spec: \<open>clone()\<close> deep-copies the storage into new storage and,
  for lists and the erased wrappers, clones the contained values; the clone of the
  empty value is empty. The first argument bounds the nesting depth followed
  (storage may be cyclic); \<open>None\<close> is no result: the bound is reached, or the
  storage does not hold what the type says (undefined behaviour in C++).
\<close>

fun clone :: "nat \<Rightarrow> GenericValue \<Rightarrow> Heap \<Rightarrow> (GenericValue \<times> Heap) option" where
  "clone 0 v h = None"
| "clone (Suc n) v h =
     (case gv_type v of
        None \<Rightarrow> Some (GenericValue_empty, h)
      | Some t \<Rightarrow>
          (case (shape t, cells h (gv_value v)) of
             (SInt, Some (IntCell i)) \<Rightarrow>
               (let (a, h1) = alloc (IntCell i) h in Some (\<lparr>gv_type = Some t, gv_value = a\<rparr>, h1))
           | (SFloat, Some (FloatCell x)) \<Rightarrow>
               (let (a, h1) = alloc (FloatCell x) h in Some (\<lparr>gv_type = Some t, gv_value = a\<rparr>, h1))
           | (SString, Some (StringCell s)) \<Rightarrow>
               (let (a, h1) = alloc (StringCell s) h in Some (\<lparr>gv_type = Some t, gv_value = a\<rparr>, h1))
           | (SList, Some (ListCell e xs)) \<Rightarrow>
               (case mapH (\<lambda>x. clone n \<lparr>gv_type = Some e, gv_value = x\<rparr>) xs h of
                  None \<Rightarrow> None
                | Some (ys, h1) \<Rightarrow>
                    (let (a, h2) = alloc (ListCell e (map gv_value ys)) h1
                     in Some (\<lparr>gv_type = Some t, gv_value = a\<rparr>, h2)))
           | (SValue, Some (ValueCell g)) \<Rightarrow>
               (case clone n g h of
                  None \<Rightarrow> None
                | Some (g', h1) \<Rightarrow>
                    (let (a, h2) = alloc (ValueCell g') h1
                     in Some (\<lparr>gv_type = Some t, gv_value = a\<rparr>, h2)))
           | (SObject, Some (ObjectCell g)) \<Rightarrow>
               (case clone n g h of
                  None \<Rightarrow> None
                | Some (g', h1) \<Rightarrow>
                    (let (a, h2) = alloc (ObjectCell g') h1
                     in Some (\<lparr>gv_type = Some t, gv_value = a\<rparr>, h2)))
           | (SNative, _) \<Rightarrow>
               (case readFields h (gv_value v) (objectSize t) of
                  None \<Rightarrow> None
                | Some ws \<Rightarrow>
                    (let (a, h1) = allocBlock (map FieldCell ws) h
                     in Some (\<lparr>gv_type = Some t, gv_value = a\<rparr>, h1)))
           | _ \<Rightarrow> None))"

text \<open>
  Modelled from the spec: \<open>destroy()\<close> releases the storage a value owns, contained
  values first; destroying the empty value does nothing.
\<close>

fun destroy :: "nat \<Rightarrow> GenericValue \<Rightarrow> Heap \<Rightarrow> Heap option" where
  "destroy 0 v h = None"
| "destroy (Suc n) v h =
     (case gv_type v of
        None \<Rightarrow> Some h
      | Some t \<Rightarrow>
          (case (shape t, cells h (gv_value v)) of
             (SInt, Some (IntCell i)) \<Rightarrow> Some (free (gv_value v) h)
           | (SFloat, Some (FloatCell x)) \<Rightarrow> Some (free (gv_value v) h)
           | (SString, Some (StringCell s)) \<Rightarrow> Some (free (gv_value v) h)
           | (SList, Some (ListCell e xs)) \<Rightarrow>
               (case forEach (\<lambda>x. destroy n \<lparr>gv_type = Some e, gv_value = x\<rparr>) xs h of
                  None \<Rightarrow> None
                | Some h1 \<Rightarrow> Some (free (gv_value v) h1))
           | (SValue, Some (ValueCell g)) \<Rightarrow>
               (case destroy n g h of None \<Rightarrow> None | Some h1 \<Rightarrow> Some (free (gv_value v) h1))
           | (SObject, Some (ObjectCell g)) \<Rightarrow>
               (case destroy n g h of None \<Rightarrow> None | Some h1 \<Rightarrow> Some (free (gv_value v) h1))
           | (SNative, _) \<Rightarrow>
               (case readFields h (gv_value v) (objectSize t) of
                  None \<Rightarrow> None
                | Some ws \<Rightarrow> Some (freeBlock (gv_value v) (objectSize t) h))
           | _ \<Rightarrow> None))"

text \<open>
  Modelled from the spec: \<open>GenericList::pushBack\<close> copies the value passed into
  the list's own storage (the list takes its own copy) and appends it; the caller
  keeps what it passed. The list copies what the value's storage pointer holds as an
  instance of its own element type. Pushing the empty value has no result.
\<close>

definition pushBack :: "nat \<Rightarrow> GenericValue \<Rightarrow> GenericValue \<Rightarrow> Heap \<Rightarrow> Heap option" where
  "pushBack n lst val h =
     (case gv_type val of
        None \<Rightarrow> None
      | Some t \<Rightarrow>
          (case cells h (gv_value lst) of
             Some (ListCell e xs) \<Rightarrow>
               (case clone n \<lparr>gv_type = Some e, gv_value = gv_value val\<rparr> h of
                  None \<Rightarrow> None
                | Some (c, h1) \<Rightarrow>
                    Some (store (gv_value lst) (ListCell e (xs @ [gv_value c])) h1))
           | _ \<Rightarrow> None))"

subsection \<open>The numeric casts of C++\<close>

text \<open>
  \<open>int64_t\<close> to \<open>double\<close>: exact when the integer fits the 53-bit significand,
  otherwise rounded to the nearest representable number, ties to even.
\<close>

definition int64_to_double :: "int \<Rightarrow> real" where
  "int64_to_double x =
     (let k = nat (bitlen \<bar>x\<bar> - 53); q = x div 2 ^ k; r = x mod 2 ^ k
      in of_int ((if 2 * r < 2 ^ k \<or> (2 * r = 2 ^ k \<and> even q) then q else q + 1) * 2 ^ k))"

text \<open>\<open>double\<close> to \<open>int64_t\<close>: truncation toward zero; undefined (no result) when
  the truncated number is outside the range of \<open>int64_t\<close>.\<close>

definition double_to_int64 :: "real \<Rightarrow> int option" where
  "double_to_int64 d =
     (let t = (if 0 \<le> d then \<lfloor>d\<rfloor> else \<lceil>d\<rceil>)
      in if - (2 ^ 63) \<le> t \<and> t < 2 ^ 63 then Some t else None)"

text \<open>An integer is exactly representable as a \<open>double\<close> when the bits below its
  53 leading ones are zero.\<close>

definition fits_double :: "int \<Rightarrow> bool" where
  "fits_double x = (x mod 2 ^ nat (bitlen \<bar>x\<bar> - 53) = 0)"

subsection \<open>\<open>GenericValue::convert2\<close>, lines 13-136\<close>

text \<open>
  The first argument bounds the depth of the recursion (through list elements and
  through the erased wrappers, whose storage may be cyclic). \<open>None\<close> is no result:
  the bound is reached, or the C++ has undefined behaviour (a null \<open>type\<close>, storage
  that does not hold what its type says, a \<open>double\<close> outside \<open>int64_t\<close>). The
  locals \<open>skind\<close> and \<open>dkind\<close> are written out as \<open>kind type\<close> and
  \<open>kind targetType\<close>.
\<close>

text \<open>
  The body of the loop of lines 57-69 on the element stored at \<open>x\<close>: \<open>val\<close> is the
  view \<open>*i\<close>; \<open>conv\<close> is the recursive call \<open>val.convert2(dstElemType)\<close>.
\<close>

definition convertElement ::
  "(GenericValue \<Rightarrow> Heap \<Rightarrow> ((GenericValue \<times> bool) \<times> Heap) option) \<Rightarrow> nat \<Rightarrow> bool \<Rightarrow> Type \<Rightarrow>
   GenericValue \<Rightarrow> int \<Rightarrow> Heap \<Rightarrow> Heap option" where
  "convertElement conv n needConvert srcElemType lresult x h =
     (let val = \<lparr>gv_type = Some srcElemType, gv_value = x\<rparr> in
      if \<not> needConvert then pushBack n lresult val h
      else
        (case conv val h of
           None \<Rightarrow> None
         | Some (c, h1) \<Rightarrow>
             (case pushBack n lresult (fst c) h1 of
                None \<Rightarrow> None
              | Some h2 \<Rightarrow> if snd c then destroy n (fst c) h2 else Some h2)))"

fun convert2 :: "nat \<Rightarrow> GenericValue \<Rightarrow> Type \<Rightarrow> Heap \<Rightarrow> ((GenericValue \<times> bool) \<times> Heap) option" where
  "convert2 0 this targetType h = None"
| "convert2 (Suc n) this targetType h =
     (case gv_type this of
        None \<Rightarrow> None
      | Some type \<Rightarrow>
          if self type = self targetType then Some ((this, False), h)
          else
            if kind type = kind targetType \<and> kind type = FloatK then
              (case initializeStorage targetType h of
                 None \<Rightarrow> None
               | Some (a, h1) \<Rightarrow>
                   (case cells h1 (gv_value this) of
                      Some (FloatCell x) \<Rightarrow>
                        Some ((\<lparr>gv_type = Some targetType, gv_value = a\<rparr>, True),
                              store a (FloatCell (floatSet targetType (floatGet type x))) h1)
                    | _ \<Rightarrow> None))
            else if kind type = kind targetType \<and> kind type = IntK then
              (case initializeStorage targetType h of
                 None \<Rightarrow> None
               | Some (a, h1) \<Rightarrow>
                   (case cells h1 (gv_value this) of
                      Some (IntCell i) \<Rightarrow>
                        Some ((\<lparr>gv_type = Some targetType, gv_value = a\<rparr>, True),
                              store a (IntCell (intSet targetType (intGet type i))) h1)
                    | _ \<Rightarrow> None))
            else if kind type = kind targetType \<and> kind type = ListK then
              (case cells h (gv_value this) of
                 Some (ListCell srcElemType elems) \<Rightarrow>
                   (case initializeStorage targetType h of
                      None \<Rightarrow> None
                    | Some (storage, h1) \<Rightarrow>
                        (case cells h1 storage of
                           Some (ListCell dstElemType ys) \<Rightarrow>
                             (let needConvert = (info srcElemType \<noteq> info dstElemType);
                                  lresult = \<lparr>gv_type = Some targetType, gv_value = storage\<rparr>
                              in case forEach
                                   (convertElement (\<lambda>val h2. convert2 n val dstElemType h2)
                                      n needConvert srcElemType lresult)
                                   elems h1 of
                                   None \<Rightarrow> None
                                 | Some h5 \<Rightarrow> Some ((lresult, True), h5))
                         | _ \<Rightarrow> None))
               | _ \<Rightarrow> None)
            else if kind type = FloatK \<and> kind targetType = IntK then
              (case initializeStorage targetType h of
                 None \<Rightarrow> None
               | Some (a, h1) \<Rightarrow>
                   (case cells h1 (gv_value this) of
                      Some (FloatCell x) \<Rightarrow>
                        (case double_to_int64 (floatGet type x) of
                           None \<Rightarrow> None
                         | Some i \<Rightarrow>
                             Some ((\<lparr>gv_type = Some targetType, gv_value = a\<rparr>, True),
                                   store a (IntCell (intSet targetType i)) h1))
                    | _ \<Rightarrow> None))
            else if kind type = IntK \<and> kind targetType = FloatK then
              (case initializeStorage targetType h of
                 None \<Rightarrow> None
               | Some (a, h1) \<Rightarrow>
                   (case cells h1 (gv_value this) of
                      Some (IntCell i) \<Rightarrow>
                        Some ((\<lparr>gv_type = Some targetType, gv_value = a\<rparr>, True),
                              store a (FloatCell (floatSet targetType (int64_to_double (intGet type i)))) h1)
                    | _ \<Rightarrow> None))
            else if info targetType = genericValueInfo then
              (case alloc (ValueCell this) h of
                 (a, h1) \<Rightarrow> Some ((\<lparr>gv_type = Some targetType, gv_value = a\<rparr>, False), h1))
            else if info type = genericValueInfo then
              (case cells h (gv_value this) of
                 Some (ValueCell metaval) \<Rightarrow> convert2 n metaval targetType h
               | _ \<Rightarrow> None)
            else if info type = genericObjectInfo then
              (case cells h (gv_value this) of
                 Some (ObjectCell obj) \<Rightarrow> convert2 n obj targetType h
               | _ \<Rightarrow> None)
            else if kind type = ObjectK \<and> inherits type targetType \<noteq> -1 then
              Some ((\<lparr>gv_type = Some targetType,
                      gv_value = gv_value this + inherits type targetType\<rparr>, False), h)
            else if info type = info targetType then Some ((this, False), h)
            else Some ((GenericValue_empty, False), h))"

subsection \<open>\<open>GenericValue::convert\<close>, lines 138-192, and \<open>convertCopy\<close>, lines 194-201\<close>

text \<open>
  The dynamic intermediate of the fallback path. \<open>Type::toValue\<close> and
  \<open>Type::fromValue\<close> are defined outside genericvalue.cpp and are parameters of
  \<open>convert\<close>: \<open>toValue\<close> reads the storage of a value of the given type,
  \<open>fromValue\<close> allocates storage of the given type from an intermediate.
\<close>

datatype DynamicValue =
    Invalid
  | DInt int
  | DDouble real
  | DString string
  | DList "DynamicValue list"

record Dyn =
  toValue :: "Type \<Rightarrow> int \<Rightarrow> Heap \<Rightarrow> DynamicValue"
  fromValue :: "Type \<Rightarrow> DynamicValue \<Rightarrow> Heap \<Rightarrow> int \<times> Heap"

definition castError :: "Type \<Rightarrow> Type \<Rightarrow> string" where
  "castError type targetType = ''Cast error '' @ info type @ '' -> '' @ info targetType"

definition qiLogWarning :: "string \<Rightarrow> Heap \<Rightarrow> Heap" where
  "qiLogWarning msg h = h\<lparr>logged := logged h @ [msg]\<rparr>"

text \<open>Lines 182-191, "Nothing else worked, go through value": the intermediate is
  read from the source, a warning is logged when it is \<open>Invalid\<close>, and the result is
  built from the intermediate in either case.\<close>

definition throughValue :: "Dyn \<Rightarrow> Type \<Rightarrow> GenericValue \<Rightarrow> Type \<Rightarrow> Heap \<Rightarrow> ((GenericValue \<times> bool) \<times> Heap) option" where
  "throughValue d type this targetType h =
     (let temp = toValue d type (gv_value this) h;
          h1 = (if temp = Invalid then qiLogWarning (castError type targetType) h else h)
      in case fromValue d targetType temp h1 of
           (a, h2) \<Rightarrow> Some ((\<lparr>gv_type = Some targetType, gv_value = a\<rparr>, True), h2))"

text \<open>\<open>dynamic_cast<ObjectType*>(type)\<close> is non-null for the descriptors of object
  types, those of kind \<open>ObjectK\<close>.\<close>

fun convert :: "Dyn \<Rightarrow> nat \<Rightarrow> GenericValue \<Rightarrow> Type \<Rightarrow> Heap \<Rightarrow> ((GenericValue \<times> bool) \<times> Heap) option" where
  "convert d 0 this targetType h = None"
| "convert d (Suc n) this targetType h =
     (if info targetType = genericValueInfo then
        (case alloc (ValueCell this) h of
           (a, h1) \<Rightarrow> Some ((\<lparr>gv_type = Some targetType, gv_value = a\<rparr>, False), h1))
      else
        case gv_type this of
          None \<Rightarrow> None
        | Some type \<Rightarrow>
            if info type = genericValueInfo then
              (case cells h (gv_value this) of
                 Some (ValueCell metaval) \<Rightarrow> convert d n metaval targetType h
               | _ \<Rightarrow> None)
            else if info type = genericObjectInfo then
              (case cells h (gv_value this) of
                 Some (ObjectCell obj) \<Rightarrow> convert d n obj targetType h
               | _ \<Rightarrow> None)
            else if info targetType = info type then Some ((this, False), h)
            else if kind type = ObjectK \<and> inherits type targetType \<noteq> -1 then
              Some ((\<lparr>gv_type = Some targetType,
                      gv_value = gv_value this + inherits type targetType\<rparr>, False), h)
            else throughValue d type this targetType h)"

definition convertCopy :: "Dyn \<Rightarrow> nat \<Rightarrow> GenericValue \<Rightarrow> Type \<Rightarrow> Heap \<Rightarrow> (GenericValue \<times> Heap) option" where
  "convertCopy d n this targetType h =
     (case convert d n this targetType h of
        None \<Rightarrow> None
      | Some (res, h1) \<Rightarrow> if snd res then Some (fst res, h1) else clone n (fst res) h1)"


subsection \<open>Abstract values\<close>

text \<open>
  What a value denotes, whatever addresses hold it: two values are value-equal when
  they denote the same abstract value. The first argument bounds the nesting depth
  followed; \<open>None\<close>: the bound is reached, or the storage does not hold what the
  type says.
\<close>

datatype AVal =
    AEmpty
  | AInt int
  | AFloat real
  | AString string
  | AList "AVal list"
  | ADynamic AVal
  | AObject AVal
  | ANative "int list"

fun absval :: "nat \<Rightarrow> Heap \<Rightarrow> GenericValue \<Rightarrow> AVal option" where
  "absval 0 h v = None"
| "absval (Suc n) h v =
     (case gv_type v of
        None \<Rightarrow> Some AEmpty
      | Some t \<Rightarrow>
          (case (shape t, cells h (gv_value v)) of
             (SInt, Some (IntCell i)) \<Rightarrow> Some (AInt i)
           | (SFloat, Some (FloatCell x)) \<Rightarrow> Some (AFloat x)
           | (SString, Some (StringCell s)) \<Rightarrow> Some (AString s)
           | (SList, Some (ListCell e xs)) \<Rightarrow>
               map_option AList (those (map (\<lambda>x. absval n h \<lparr>gv_type = Some e, gv_value = x\<rparr>) xs))
           | (SValue, Some (ValueCell g)) \<Rightarrow> map_option ADynamic (absval n h g)
           | (SObject, Some (ObjectCell g)) \<Rightarrow> map_option AObject (absval n h g)
           | (SNative, _) \<Rightarrow> map_option ANative (readFields h (gv_value v) (objectSize t))
           | _ \<Rightarrow> None))"

text \<open>The abstract value of a returned value, in the store returned with it.\<close>

definition valueAfter :: "nat \<Rightarrow> (GenericValue \<times> Heap) option \<Rightarrow> AVal option" where
  "valueAfter n res = (case res of None \<Rightarrow> None | Some (r, h) \<Rightarrow> absval n h r)"

text \<open>No address from \<open>nxt\<close> on holds anything yet.\<close>

definition wf_heap :: "Heap \<Rightarrow> bool" where
  "wf_heap h = (\<forall>a. nxt h \<le> a \<longrightarrow> cells h a = None)"

text \<open>The store \<open>h'\<close> cut down to the addresses handed out since the store \<open>h\<close>.\<close>

definition newStorage :: "Heap \<Rightarrow> Heap \<Rightarrow> Heap" where
  "newStorage h h' = h'\<lparr>cells := (\<lambda>x. if nxt h \<le> x then cells h' x else None)\<rparr>"

text \<open>\<open>h'\<close> is \<open>h\<close> with more storage allocated: nothing that existed was changed or
  released, nothing was logged.\<close>

definition grows :: "Heap \<Rightarrow> Heap \<Rightarrow> bool" where
  "grows h h' \<longleftrightarrow>
     wf_heap h' \<and> nxt h \<le> nxt h' \<and> (\<forall>x. x < nxt h \<longrightarrow> cells h' x = cells h x)
     \<and> logged h' = logged h"







text \<open>What a clone \<open>r\<close> of \<open>v\<close> is: of the same type, made by allocation only, and
  denoting the value \<open>a\<close> of \<open>v\<close> by the newly allocated storage alone.\<close>

definition cloned :: "nat \<Rightarrow> GenericValue \<Rightarrow> AVal \<Rightarrow> Heap \<Rightarrow> GenericValue \<Rightarrow> Heap \<Rightarrow> bool" where
  "cloned n v a h r h' \<longleftrightarrow>
     gv_type r = gv_type v \<and> grows h h' \<and> absval n (newStorage h h') r = Some a
     \<and> (gv_type v \<noteq> None \<longrightarrow> nxt h \<le> gv_value r)"

text \<open>
  The values a value wraps: itself, and what the \<open>GenericValue\<close> or
  \<open>GenericObject\<close> stored at a wrapped value's address holds.
\<close>

inductive wraps :: "Heap \<Rightarrow> GenericValue \<Rightarrow> GenericValue \<Rightarrow> bool" for h :: Heap and v :: GenericValue where
  wraps_self: "wraps h v v"
| wraps_value: "wraps h v u \<Longrightarrow> cells h (gv_value u) = Some (ValueCell w) \<Longrightarrow> wraps h v w"
| wraps_object: "wraps h v u \<Longrightarrow> cells h (gv_value u) = Some (ObjectCell w) \<Longrightarrow> wraps h v w"

text \<open>
  \<open>r\<close> is a view of \<open>v\<close> at the target type \<open>T\<close>: \<open>v\<close> itself or a value it
  wraps, as it is, or retyped to \<open>T\<close> at the offset at which its object type
  inherits from \<open>T\<close>.
\<close>

definition viewOf :: "Heap \<Rightarrow> GenericValue \<Rightarrow> Type \<Rightarrow> GenericValue \<Rightarrow> bool" where
  "viewOf h v T r =
     (\<exists>u. wraps h v u \<and>
        (r = u \<or>
         (\<exists>tu. gv_type u = Some tu \<and> kind tu = ObjectK \<and> inherits tu T \<noteq> -1 \<and>
            r = \<lparr>gv_type = Some T, gv_value = gv_value u + inherits tu T\<rparr>)))"

text \<open>The pairs of kinds that the first half of \<open>convert2\<close> handles (lines 27-90):
  the same kind, \<open>Float\<close>, \<open>Int\<close> or \<open>List\<close>, and the two cross-numeric pairs.\<close>

definition numericOrList :: "Type \<Rightarrow> Type \<Rightarrow> bool" where
  "numericOrList t T \<longleftrightarrow>
     (kind t = kind T \<and> (kind t = FloatK \<or> kind t = IntK \<or> kind t = ListK))
     \<or> (kind t = FloatK \<and> kind T = IntK) \<or> (kind t = IntK \<and> kind T = FloatK)"

subsection \<open>The list conversion, element by element\<close>







subsection \<open>Descriptors and a store for the examples\<close>

definition plainType :: "nat \<Rightarrow> string \<Rightarrow> Kind \<Rightarrow> Type" where
  "plainType p i k = Type p i k None [] (\<lambda>x. x) (\<lambda>x. x) (\<lambda>x. x) (\<lambda>x. x) 1"

text \<open>Narrowing an \<open>int64_t\<close> to a 32-bit \<open>int\<close>.\<close>

definition int32_set :: "int \<Rightarrow> int" where
  "int32_set x = (x + 2 ^ 31) mod 2 ^ 32 - 2 ^ 31"

definition tInt32 :: Type where
  "tInt32 = Type 1 ''int'' IntK None [] (\<lambda>x. x) int32_set (\<lambda>x. x) (\<lambda>x. x) 1"

definition tInt64 :: Type where
  "tInt64 = plainType 2 ''long'' IntK"

definition tDouble :: Type where
  "tDouble = plainType 3 ''double'' FloatK"

definition tDynamic :: Type where
  "tDynamic = plainType 4 genericValueInfo DynamicK"

definition tString :: Type where
  "tString = plainType 5 ''std::string'' StringK"

definition tBase :: Type where
  "tBase = plainType 6 ''Base'' ObjectK"

definition tDerived :: Type where
  "tDerived = Type 7 ''Derived'' ObjectK None [(''Base'', 2)] (\<lambda>x. x) (\<lambda>x. x) (\<lambda>x. x) (\<lambda>x. x) 3"

definition tListInt32 :: Type where
  "tListInt32 = Type 8 ''std::vector<int>'' ListK (Some tInt32) [] (\<lambda>x. x) (\<lambda>x. x) (\<lambda>x. x) (\<lambda>x. x) 1"

definition tListInt64 :: Type where
  "tListInt64 = Type 9 ''std::vector<long>'' ListK (Some tInt64) [] (\<lambda>x. x) (\<lambda>x. x) (\<lambda>x. x) (\<lambda>x. x) 1"

definition tListDynamic :: Type where
  "tListDynamic = Type 10 ''std::vector<qi::GenericValue>'' ListK (Some tDynamic) []
     (\<lambda>x. x) (\<lambda>x. x) (\<lambda>x. x) (\<lambda>x. x) 1"

text \<open>A second sequence of \<open>int\<close>: another list type with the same element type.\<close>

definition tDequeInt32 :: Type where
  "tDequeInt32 = Type 11 ''std::deque<int>'' ListK (Some tInt32) [] (\<lambda>x. x) (\<lambda>x. x) (\<lambda>x. x) (\<lambda>x. x) 1"

definition tListString :: Type where
  "tListString = Type 12 ''std::vector<std::string>'' ListK (Some tString) []
     (\<lambda>x. x) (\<lambda>x. x) (\<lambda>x. x) (\<lambda>x. x) 1"

definition tMapIntInt :: Type where
  "tMapIntInt = Type 13 ''std::map<int,int>'' MapK None [] (\<lambda>x. x) (\<lambda>x. x) (\<lambda>x. x) (\<lambda>x. x) 2"

text \<open>
  The example store: two \<open>int\<close>s at 10 and 11, the list of both at 12, a
  \<open>GenericValue\<close> wrapping the first at 13, a string at 14 and the list of it at 15,
  a \<open>Derived\<close> object at 20 to 22 whose \<open>Base\<close> sub-object is its last unit, and
  a map at 30 and 31.
\<close>

definition exHeap :: Heap where
  "exHeap =
     \<lparr>cells = [10 \<mapsto> IntCell 7, 11 \<mapsto> IntCell 8, 12 \<mapsto> ListCell tInt32 [10, 11],
               13 \<mapsto> ValueCell \<lparr>gv_type = Some tInt32, gv_value = 10\<rparr>,
               14 \<mapsto> StringCell ''seven'', 15 \<mapsto> ListCell tString [14],
               20 \<mapsto> FieldCell 1, 21 \<mapsto> FieldCell 2, 22 \<mapsto> FieldCell 3,
               30 \<mapsto> FieldCell 5, 31 \<mapsto> FieldCell 6],
      nxt = 100, logged = []\<rparr>"

definition exInt :: GenericValue where
  "exInt = \<lparr>gv_type = Some tInt32, gv_value = 10\<rparr>"


definition exMeta :: GenericValue where
  "exMeta = \<lparr>gv_type = Some tDynamic, gv_value = 13\<rparr>"

definition exDerived :: GenericValue where
  "exDerived = \<lparr>gv_type = Some tDerived, gv_value = 20\<rparr>"

definition exStrings :: GenericValue where
  "exStrings = \<lparr>gv_type = Some tListString, gv_value = 15\<rparr>"

definition exMap :: GenericValue where
  "exMap = \<lparr>gv_type = Some tMapIntInt, gv_value = 30\<rparr>"

text \<open>An intermediate representation for the examples: numbers and strings have
  one, everything else is \<open>Invalid\<close>; \<open>fromValue\<close> allocates what the
  intermediate holds, a zero for \<open>Invalid\<close>.\<close>

definition exDyn :: Dyn where
  "exDyn =
     \<lparr>toValue = (\<lambda>t a h. case cells h a of
                     Some (IntCell i) \<Rightarrow> DInt i
                   | Some (FloatCell x) \<Rightarrow> DDouble x
                   | Some (StringCell s) \<Rightarrow> DString s
                   | _ \<Rightarrow> Invalid),
      fromValue = (\<lambda>t dv h. case dv of
                     DInt i \<Rightarrow> alloc (IntCell i) h
                   | DDouble x \<Rightarrow> alloc (FloatCell x) h
                   | DString s \<Rightarrow> alloc (StringCell s) h
                   | _ \<Rightarrow> alloc (IntCell 0) h)\<rparr>"


section \<open>Theorems: signature derivation\<close>

lemma arg_apply_token:
  "signature_function_arg_apply m (arg_transform p) s = s @ param_token m p"
  by (cases p) (simp add: arg_transform_def add_pointer_def param_token_def)

lemma fold_arg_apply:
  "fold (signature_function_arg_apply m) (map arg_transform ps) s
     = s @ concat (map (param_token m) ps)"
  by (induction ps arbitrary: s) (simp_all add: arg_apply_token)

text \<open>
  C9. Each overload of \<open>advertiseMethod\<close>, for a function of result type \<open>r\<close> and
  parameter types \<open>ps\<close> (a member function of a class \<open>c\<close> for the third), calls
  \<open>xAdvertiseMethod\<close> once, with the full signature \<open>name::(\<close> followed by the
  signature tokens of \<open>ps\<close> in order and \<open>)\<close>, and with the signature of \<open>r\<close>,
  computed from the result type alone, as a separate argument.
\<close>

theorem advertiseMethod_signature:
  "advertiseMethod m name (Function r ps) fn mo =
     (to_unsigned_int (fst (xAdvertiseMethod (m r)
         (spec_signature name (map (param_token m) ps)) (makeFunctor fn) mo)),
      snd (xAdvertiseMethod (m r)
         (spec_signature name (map (param_token m) ps)) (makeFunctor fn) mo))
   \<and> advertiseMethod_boost m name (Function r ps) fn mo =
     (to_unsigned_int (fst (xAdvertiseMethod (m r)
         (spec_signature name (map (param_token m) ps)) (makeFunctor fn) mo)),
      snd (xAdvertiseMethod (m r)
         (spec_signature name (map (param_token m) ps)) (makeFunctor fn) mo))
   \<and> advertiseMethod_member m name ob (MemberFunction c r ps) fn mo =
     (to_unsigned_int (fst (xAdvertiseMethod (m r)
         (spec_signature name (map (param_token m) ps)) (makeMethodFunctor ob fn) mo)),
      snd (xAdvertiseMethod (m r)
         (spec_signature name (map (param_token m) ps)) (makeMethodFunctor ob fn) mo))
   \<and> spec_signature name (map (param_token m) ps)
       = name @ ''::('' @ concat (map (\<lambda>p. m (CType False False (type_name p))) ps) @ '')''"
proof -
  have "param_token m p = m (CType False False (type_name p))" for p
    by (cases p) (simp add: param_token_def)
  then have tok: "param_token m = (\<lambda>p. m (CType False False (type_name p)))"
    by (simp add: fun_eq_iff)
  show ?thesis
    unfolding tok [symmetric]
    by (simp add: advertiseMethod_def advertiseMethod_boost_def advertiseMethod_member_def
        for_each_transformed_def fold_arg_apply spec_signature_def pop_front_def
        split: prod.splits)
qed


section \<open>Theorems: the C binding\<close>

lemma qi_object_call_null_method:
  "method_of (metaObject obj) (methodId (metaObject obj) sig) = None \<Longrightarrow>
   qi_object_call obj sig msg = Inl NullPointerDereference"
  by (simp add: qi_object_call_def)

lemma qi_object_call_unregistered:
  assumes "nameToIdx (metaObject obj) sig = None" and "methodsMap (metaObject obj) (-1) = None"
  shows "qi_object_call obj sig msg = Inl NullPointerDereference"
  using assms by (simp add: qi_object_call_def methodId_def method_of_def)

text \<open>
  C1. The call of \<open>missing::()\<close> on an object with no method registered, whose
  \<open>xMetaCall\<close> would answer any call by an error in the future: \<open>qi_object_call\<close>
  faults on the null method pointer and returns no future at all.
\<close>

theorem qi_object_call_missing_faults:
  "qi_object_call \<lparr>metaObject = emptyMetaObject, xMetaCall = (\<lambda>r s b. Error ''UnknownMethod'')\<rparr>
     ''missing::()'' \<lparr>buff = []\<rparr> = Inl NullPointerDereference"
  by (simp add: qi_object_call_def methodId_def method_of_def emptyMetaObject_def)

lemma register_method_returns_0:
  "qi_object_builder_register_method split ob sig f d = Inr (r, ob') \<Longrightarrow> r = 0"
  by (auto simp: qi_object_builder_register_method_def Let_def split: if_splits prod.splits)

lemma exampleSplit_reply: "exampleSplit ''reply::s(s)'' = [''s'', ''reply'', ''(s)'']"
  by (simp add: exampleSplit_def)

text \<open>
  C8. \<open>reply::s(s)\<close> registered twice through the C entry point: the second
  registration is a conflict for the builder (\<open>xAdvertiseMethod\<close> answers \<open>-1\<close> and
  leaves the registry as it was), and the entry point returns \<open>0\<close> both times.
\<close>

theorem register_method_conflict_returns_0:
  "qi_object_builder_register_method exampleSplit emptyMetaObject ''reply::s(s)'' 1 0
     = Inr (0, snd (xAdvertiseMethod ''s'' ''reply::(s)'' (bind_c_call ''reply::s(s)'' 1 0) emptyMetaObject))
   \<and> qi_object_builder_register_method exampleSplit
       (snd (xAdvertiseMethod ''s'' ''reply::(s)'' (bind_c_call ''reply::s(s)'' 1 0) emptyMetaObject))
       ''reply::s(s)'' 2 0
     = Inr (0, snd (xAdvertiseMethod ''s'' ''reply::(s)'' (bind_c_call ''reply::s(s)'' 1 0) emptyMetaObject))
   \<and> fst (xAdvertiseMethod ''s'' ''reply::(s)'' (bind_c_call ''reply::s(s)'' 2 0)
       (snd (xAdvertiseMethod ''s'' ''reply::(s)'' (bind_c_call ''reply::s(s)'' 1 0) emptyMetaObject)))
     = -1"
  by (simp add: qi_object_builder_register_method_def exampleSplit_reply xAdvertiseMethod_def
      emptyMetaObject_def Let_def)

section \<open>Theorems: the conversions\<close>

lemmas ex_types = tInt32_def tInt64_def tDouble_def tDynamic_def tString_def tBase_def
  tDerived_def tListInt32_def tListInt64_def tListDynamic_def tDequeInt32_def
  tListString_def tMapIntInt_def plainType_def
  genericValueInfo_def genericObjectInfo_def

text \<open>
  C5. A source of an object type converted to another object type (neither being an
  erased wrapper): when the source type inherits from the target, at the offset
  \<open>inherits\<close> returns, both \<open>convert2\<close> and \<open>convert\<close> return a view that does not own its
  storage, of the target type, at the source's address plus the offset; the store is
  the one before the call (nothing allocated, nothing copied), and reading at any
  offset through the view reads what the source holds at the inheritance offset plus
  that offset. When \<open>inherits\<close> returns \<open>-1\<close> the step is skipped: \<open>convert2\<close> ends with
  the empty value, \<open>convert\<close> goes on to the dynamic intermediate.
\<close>

theorem inheritance_view:
  assumes "gv_type v = Some t" and "kind t = ObjectK" and "kind T = ObjectK"
    and "self t \<noteq> self T" and "info t \<noteq> info T"
    and "info t \<noteq> genericValueInfo" and "info t \<noteq> genericObjectInfo"
    and "info T \<noteq> genericValueInfo"
  shows "(inherits t T \<noteq> -1 \<longrightarrow>
            convert2 (Suc n) v T h =
              Some ((\<lparr>gv_type = Some T, gv_value = gv_value v + inherits t T\<rparr>, False), h)
          \<and> convert d (Suc n) v T h =
              Some ((\<lparr>gv_type = Some T, gv_value = gv_value v + inherits t T\<rparr>, False), h)
          \<and> (\<forall>k. readField h \<lparr>gv_type = Some T, gv_value = gv_value v + inherits t T\<rparr> k
                 = readField h v (inherits t T + k)))
       \<and> (inherits t T = -1 \<longrightarrow>
            convert2 (Suc n) v T h = Some ((GenericValue_empty, False), h)
          \<and> convert d (Suc n) v T h = throughValue d t v T h)"
  using assms by (simp add: readField_def add.assoc)

theorem inheritance_view_witness:
  "convert2 (Suc 0) exDerived tBase exHeap = Some ((\<lparr>gv_type = Some tBase, gv_value = 22\<rparr>, False), exHeap)
   \<and> convert exDyn (Suc 0) exDerived tBase exHeap = Some ((\<lparr>gv_type = Some tBase, gv_value = 22\<rparr>, False), exHeap)
   \<and> readField exHeap \<lparr>gv_type = Some tBase, gv_value = 22\<rparr> 0 = readField exHeap exDerived 2
   \<and> readField exHeap exDerived 2 = Some (FieldCell 3)"
  using inheritance_view [of exDerived tDerived tBase 0 exHeap exDyn]
  by (simp add: exDerived_def ex_types inherits_def readField_def exHeap_def)

text \<open>
  C6. A conversion by \<open>convert\<close> that reaches the fallback (no wrapper on either
  side, different types, no inheritance) and whose source yields the \<open>Invalid\<close>
  intermediate: the warning is logged, and the call still returns, with
  \<open>owns_new_storage = true\<close>, the value the target type builds from the \<open>Invalid\<close>
  intermediate.
\<close>

theorem fallback_invalid_intermediate:
  assumes "gv_type v = Some t"
    and "info T \<noteq> genericValueInfo" and "info t \<noteq> genericValueInfo"
    and "info t \<noteq> genericObjectInfo" and "info T \<noteq> info t"
    and "kind t = ObjectK \<longrightarrow> inherits t T = -1"
    and "toValue d t (gv_value v) h = Invalid"
  shows "convert d (Suc n) v T h =
           Some ((\<lparr>gv_type = Some T,
                   gv_value = fst (fromValue d T Invalid (qiLogWarning (castError t T) h))\<rparr>, True),
                 snd (fromValue d T Invalid (qiLogWarning (castError t T) h)))
         \<and> logged (qiLogWarning (castError t T) h) = logged h @ [castError t T]"
  using assms by (auto simp: throughValue_def qiLogWarning_def split: prod.splits)

theorem fallback_invalid_intermediate_witness:
  "convert exDyn (Suc 0) exDerived tInt32 exHeap =
     Some ((\<lparr>gv_type = Some tInt32, gv_value = 100\<rparr>, True),
           exHeap\<lparr>cells := (cells exHeap)(100 \<mapsto> IntCell 0), nxt := 101,
                  logged := [''Cast error Derived -> int'']\<rparr>)"
  using fallback_invalid_intermediate [of exDerived tDerived tInt32 exDyn exHeap 0]
  by (simp add: exDerived_def ex_types inherits_def exHeap_def exDyn_def alloc_def
      qiLogWarning_def castError_def)


lemma wraps_step_value:
  "wraps h w u \<Longrightarrow> cells h (gv_value v) = Some (ValueCell w) \<Longrightarrow> wraps h v u"
  by (induction rule: wraps.induct) (auto intro: wraps.intros)

lemma wraps_step_object:
  "wraps h w u \<Longrightarrow> cells h (gv_value v) = Some (ObjectCell w) \<Longrightarrow> wraps h v u"
  by (induction rule: wraps.induct) (auto intro: wraps.intros)

lemma viewOf_self: "viewOf h v T v"
  unfolding viewOf_def by (blast intro: wraps_self)

lemma viewOf_offset:
  "gv_type v = Some t \<Longrightarrow> kind t = ObjectK \<Longrightarrow> inherits t T \<noteq> -1 \<Longrightarrow>
   viewOf h v T \<lparr>gv_type = Some T, gv_value = gv_value v + inherits t T\<rparr>"
  unfolding viewOf_def by (blast intro: wraps_self)

lemma viewOf_value:
  "viewOf h w T r \<Longrightarrow> cells h (gv_value v) = Some (ValueCell w) \<Longrightarrow> viewOf h v T r"
  unfolding viewOf_def by (blast intro: wraps_step_value)

lemma viewOf_object:
  "viewOf h w T r \<Longrightarrow> cells h (gv_value v) = Some (ObjectCell w) \<Longrightarrow> viewOf h v T r"
  unfolding viewOf_def by (blast intro: wraps_step_object)

lemma convert2_numeric_owns:
  assumes c: "convert2 (Suc n) v T h = Some ((r, f), h')"
    and t: "gv_type v = Some t" and ns: "self t \<noteq> self T" and k: "numericOrList t T"
  shows "f"
proof -
  consider (ff) "kind t = FloatK" "kind T = FloatK" | (ii) "kind t = IntK" "kind T = IntK"
    | (ll) "kind t = ListK" "kind T = ListK" | (fi) "kind t = FloatK" "kind T = IntK"
    | (intfl) "kind t = IntK" "kind T = FloatK"
    using k unfolding numericOrList_def by metis
  then show ?thesis
  proof cases
    case ff
    with c t ns show ?thesis by (simp split: option.splits Cell.splits prod.splits)
  next
    case ii
    with c t ns show ?thesis by (simp split: option.splits Cell.splits prod.splits)
  next
    case ll
    with c t ns show ?thesis by (simp add: Let_def split: option.splits Cell.splits prod.splits)
  next
    case fi
    with c t ns show ?thesis by (simp split: option.splits Cell.splits prod.splits)
  next
    case intfl
    with c t ns show ?thesis by (simp split: option.splits Cell.splits prod.splits)
  qed
qed

lemma convert2_other:
  assumes t: "gv_type v = Some t" and ns: "self t \<noteq> self T" and k: "\<not> numericOrList t T"
  shows "convert2 (Suc n) v T h =
     (if info T = genericValueInfo then
        Some ((\<lparr>gv_type = Some T, gv_value = nxt h\<rparr>, False), snd (alloc (ValueCell v) h))
      else if info t = genericValueInfo then
        (case cells h (gv_value v) of
           Some (ValueCell metaval) \<Rightarrow> convert2 n metaval T h
         | _ \<Rightarrow> None)
      else if info t = genericObjectInfo then
        (case cells h (gv_value v) of
           Some (ObjectCell obj) \<Rightarrow> convert2 n obj T h
         | _ \<Rightarrow> None)
      else if kind t = ObjectK \<and> inherits t T \<noteq> -1 then
        Some ((\<lparr>gv_type = Some T, gv_value = gv_value v + inherits t T\<rparr>, False), h)
      else if info t = info T then Some ((v, False), h)
      else Some ((GenericValue_empty, False), h))"
proof -
  from k have n1: "\<not> (kind t = kind T \<and> kind t = FloatK)"
    and n2: "\<not> (kind t = kind T \<and> kind t = IntK)"
    and n3: "\<not> (kind t = kind T \<and> kind t = ListK)"
    and n4: "\<not> (kind t = FloatK \<and> kind T = IntK)"
    and n5: "\<not> (kind t = IntK \<and> kind T = FloatK)"
    unfolding numericOrList_def by blast+
  show ?thesis
    unfolding convert2.simps
    by (simp only: t option.case ns if_False n1 n2 n3 n4 n5 alloc_def prod.case snd_conv)
qed

lemma convert2_false_view:
  "convert2 n v T h = Some ((r, False), h') \<Longrightarrow> info T \<noteq> genericValueInfo \<Longrightarrow>
   h' = h \<and> (r = GenericValue_empty \<or> viewOf h v T r)"
proof (induction n arbitrary: v)
  case 0
  then show ?case by simp
next
  case (Suc n)
  from Suc.prems(1) obtain t where t: "gv_type v = Some t"
    by (cases "gv_type v") auto
  show ?case
  proof (cases "self t = self T")
    case True
    with Suc.prems t show ?thesis by (auto simp: viewOf_self)
  next
    case False
    note ns = this
    consider (num) "numericOrList t T"
      | (sv) "\<not> numericOrList t T" "info t = genericValueInfo"
      | (so) "\<not> numericOrList t T" "info t \<noteq> genericValueInfo" "info t = genericObjectInfo"
      | (rest) "\<not> numericOrList t T" "info t \<noteq> genericValueInfo" "info t \<noteq> genericObjectInfo"
      by blast
    then show ?thesis
    proof cases
      case num
      from convert2_numeric_owns [OF Suc.prems(1) t ns num] have False by simp
      then show ?thesis ..
    next
      case sv
      with Suc.prems convert2_other [OF t ns sv(1), of n h]
      obtain w where w: "cells h (gv_value v) = Some (ValueCell w)"
        and c: "convert2 n w T h = Some ((r, False), h')"
        by (auto split: option.splits Cell.splits)
      from Suc.IH [OF c Suc.prems(2)] w show ?thesis
        by (auto intro: viewOf_value)
    next
      case so
      with Suc.prems convert2_other [OF t ns so(1), of n h]
      obtain w where w: "cells h (gv_value v) = Some (ObjectCell w)"
        and c: "convert2 n w T h = Some ((r, False), h')"
        by (auto split: option.splits Cell.splits)
      from Suc.IH [OF c Suc.prems(2)] w show ?thesis
        by (auto intro: viewOf_object)
    next
      case rest
      with Suc.prems convert2_other [OF t ns rest(1), of n h] t show ?thesis
        by (auto simp: viewOf_self viewOf_offset split: if_splits)
    qed
  qed
qed

lemma convert_false_view:
  "convert d n v T h = Some ((r, False), h') \<Longrightarrow> info T \<noteq> genericValueInfo \<Longrightarrow>
   h' = h \<and> viewOf h v T r"
proof (induction n arbitrary: v)
  case 0
  then show ?case by simp
next
  case (Suc n)
  from Suc.prems obtain t where t: "gv_type v = Some t"
    by (cases "gv_type v") auto
  consider (sv) "info t = genericValueInfo"
    | (so) "info t \<noteq> genericValueInfo" "info t = genericObjectInfo"
    | (rest) "info t \<noteq> genericValueInfo" "info t \<noteq> genericObjectInfo"
    by blast
  then show ?case
  proof cases
    case sv
    with Suc.prems t obtain w where w: "cells h (gv_value v) = Some (ValueCell w)"
      and c: "convert d n w T h = Some ((r, False), h')"
      by (auto split: option.splits Cell.splits)
    from Suc.IH [OF c Suc.prems(2)] w show ?thesis
      by (auto intro: viewOf_value)
  next
    case so
    with Suc.prems t obtain w where w: "cells h (gv_value v) = Some (ObjectCell w)"
      and c: "convert d n w T h = Some ((r, False), h')"
      by (auto split: option.splits Cell.splits)
    from Suc.IH [OF c Suc.prems(2)] w show ?thesis
      by (auto intro: viewOf_object)
  next
    case rest
    with Suc.prems t show ?thesis
      by (auto simp: viewOf_self viewOf_offset throughValue_def Let_def split: if_splits prod.splits)
  qed
qed

lemma convert2_false_dynamic:
  "(r = v \<and> h' = h) \<or> (r = \<lparr>gv_type = Some T, gv_value = nxt h\<rparr> \<and> h' = snd (alloc (ValueCell v) h))"
  if "convert2 n v T h = Some ((r, False), h')" "info T = genericValueInfo"
proof (cases n)
  case 0
  then show ?thesis using that by simp
next
  case (Suc m)
  from that Suc obtain t where t: "gv_type v = Some t"
    by (cases "gv_type v") auto
  show ?thesis
  proof (cases "self t = self T")
    case True
    with that Suc t show ?thesis by simp
  next
    case False
    show ?thesis
    proof (cases "numericOrList t T")
      case True
      from convert2_numeric_owns [OF that(1) [unfolded Suc] t False True] show ?thesis by simp
    next
      case nn: False
      from that Suc convert2_other [OF t False nn, of m h] show ?thesis
        by simp
    qed
  qed
qed

lemma convert_false_dynamic:
  "convert d n v T h = Some ((r, False), h') \<Longrightarrow> info T = genericValueInfo \<Longrightarrow>
   r = \<lparr>gv_type = Some T, gv_value = nxt h\<rparr> \<and> h' = snd (alloc (ValueCell v) h)"
  by (cases n) (auto simp: alloc_def)

text \<open>
  C2, as stated, fails: an \<open>int\<close> converted to the \<open>GenericValue\<close> type comes back
  with \<open>owns_new_storage = false\<close> although its storage handle, 100, is storage that
  did not exist before the call and was allocated by it (\<open>new GenericValue(*this)\<close>);
  the source's storage is at 10.
\<close>

theorem view_flag_counterexample:
  "convert2 (Suc 0) exInt tDynamic exHeap =
     Some ((\<lparr>gv_type = Some tDynamic, gv_value = 100\<rparr>, False), snd (alloc (ValueCell exInt) exHeap))
   \<and> cells exHeap 100 = None
   \<and> cells (snd (alloc (ValueCell exInt) exHeap)) 100 = Some (ValueCell exInt)
   \<and> gv_value exInt = 10"
  by (simp add: exInt_def exHeap_def tInt32_def tDynamic_def plainType_def genericValueInfo_def
      alloc_def)

text \<open>
  C2, amended. Whenever \<open>convert2\<close> or \<open>convert\<close> returns with
  \<open>owns_new_storage = false\<close>: if the target is not the \<open>GenericValue\<close> type, the store
  is the one before the call (nothing was allocated) and the result is the empty
  value or a view, the source or a value it wraps, possibly at an inheritance
  offset; if the target is the \<open>GenericValue\<close> type, the result is the source itself
  with the store unchanged, or a newly allocated \<open>GenericValue\<close> that holds a copy of
  the source's type and storage pointers, existing storage being untouched.
\<close>

theorem view_flag_no_allocation:
  assumes "convert2 n v T h = Some ((r, False), h') \<or> convert d n v T h = Some ((r, False), h')"
  shows "(info T \<noteq> genericValueInfo \<longrightarrow>
            h' = h \<and> (r = GenericValue_empty \<or> viewOf h v T r))
       \<and> (info T = genericValueInfo \<longrightarrow>
            (r = v \<and> h' = h)
          \<or> (r = \<lparr>gv_type = Some T, gv_value = nxt h\<rparr> \<and> h' = snd (alloc (ValueCell v) h)))"
proof (cases "info T = genericValueInfo")
  case True
  from assms show ?thesis
  proof
    assume "convert2 n v T h = Some ((r, False), h')"
    from convert2_false_dynamic [OF this True] True show ?thesis by simp
  next
    assume "convert d n v T h = Some ((r, False), h')"
    from convert_false_dynamic [OF this True] True show ?thesis by simp
  qed
next
  case False
  from assms show ?thesis
  proof
    assume "convert2 n v T h = Some ((r, False), h')"
    from convert2_false_view [OF this False] False show ?thesis by simp
  next
    assume "convert d n v T h = Some ((r, False), h')"
    from convert_false_view [OF this False] False show ?thesis by simp
  qed
qed

theorem view_flag_no_allocation_witness:
  "convert2 (Suc (Suc 0)) exMeta tInt32 exHeap = Some ((exInt, False), exHeap)
   \<and> viewOf exHeap exMeta tInt32 exInt"
proof -
  have c: "convert2 (Suc (Suc 0)) exMeta tInt32 exHeap = Some ((exInt, False), exHeap)"
    by (simp add: exMeta_def exInt_def exHeap_def tInt32_def tDynamic_def plainType_def
        genericValueInfo_def genericObjectInfo_def)
  have ne: "exInt \<noteq> GenericValue_empty"
    by (simp add: exInt_def GenericValue_empty_def)
  have i: "info tInt32 \<noteq> genericValueInfo"
    by (simp add: tInt32_def genericValueInfo_def)
  from view_flag_no_allocation [of "Suc (Suc 0)" exMeta tInt32 exHeap exInt exHeap exDyn] c ne i
  show ?thesis by simp
qed


lemma int64_to_double_exact:
  assumes "fits_double x"
  shows "int64_to_double x = of_int x"
proof -
  define k where "k = nat (bitlen \<bar>x\<bar> - 53)"
  from assms have r: "x mod 2 ^ k = 0"
    by (simp add: fits_double_def k_def)
  then have q: "x div 2 ^ k * 2 ^ k = x"
    by (simp add: mod_0_imp_dvd)
  have "int64_to_double x = of_int (x div 2 ^ k * 2 ^ k)"
    unfolding int64_to_double_def Let_def k_def [symmetric] r by simp
  with q show ?thesis by simp
qed

lemma double_to_int64_of_int:
  assumes "- (2 ^ 63) \<le> x" and "x < 2 ^ 63"
  shows "double_to_int64 (of_int x) = Some x"
  using assms by (simp add: double_to_int64_def)

lemma bitlen_le_53:
  assumes "\<bar>x\<bar> < 2 ^ 53"
  shows "bitlen \<bar>x\<bar> \<le> 53"
proof (cases "\<bar>x\<bar> > 0")
  case True
  from bitlen_bounds [OF True] assms have "(2::int) ^ nat (bitlen \<bar>x\<bar> - 1) < 2 ^ 53"
    by linarith
  then have "nat (bitlen \<bar>x\<bar> - 1) < 53"
    by (rule power_less_imp_less_exp [rotated]) simp
  then show ?thesis by linarith
next
  case False
  then have "x = 0" by simp
  then show ?thesis by simp
qed

lemma fits_double_small: "\<bar>x\<bar> < 2 ^ 53 \<Longrightarrow> fits_double x"
  using bitlen_le_53 [of x] by (simp add: fits_double_def)

lemma wf_heap_fresh: "wf_heap h \<Longrightarrow> cells h a = Some c \<Longrightarrow> a \<noteq> nxt h"
  by (auto simp: wf_heap_def)

lemma store_alloc: "store (nxt h) c (snd (alloc c0 h)) = snd (alloc c h)"
  by (simp add: store_def alloc_def)

lemma convert2_int_to_float:
  assumes "gv_type v = Some ti" and "kind ti = IntK" and "kind tf = FloatK"
    and "self ti \<noteq> self tf" and "cells h (gv_value v) = Some (IntCell i)" and "wf_heap h"
  shows "convert2 (Suc n) v tf h =
     Some ((\<lparr>gv_type = Some tf, gv_value = nxt h\<rparr>, True),
           snd (alloc (FloatCell (floatSet tf (int64_to_double (intGet ti i)))) h))"
  using assms wf_heap_fresh [OF assms(6) assms(5)]
  by (simp add: initializeStorage_def alloc_def store_def)

lemma convert2_float_to_int:
  assumes "gv_type v = Some tf" and "kind tf = FloatK" and "kind ti = IntK"
    and "self tf \<noteq> self ti" and "cells h (gv_value v) = Some (FloatCell x)" and "wf_heap h"
    and "double_to_int64 (floatGet tf x) = Some j"
  shows "convert2 (Suc n) v ti h =
     Some ((\<lparr>gv_type = Some ti, gv_value = nxt h\<rparr>, True),
           snd (alloc (IntCell (intSet ti j)) h))"
  using assms wf_heap_fresh [OF assms(6) assms(5)]
  by (simp add: initializeStorage_def alloc_def store_def)

lemma wf_heap_alloc: "wf_heap h \<Longrightarrow> wf_heap (snd (alloc c h))"
  by (simp add: wf_heap_def alloc_def)

text \<open>
  C7. An integer that both numeric types represent exactly (it survives the integer
  type's \<open>get\<close> and \<open>set\<close>, it fits the 53-bit significand of the \<open>double\<close> it passes
  through, and the floating type's \<open>set\<close> and \<open>get\<close> return it unchanged): \<open>convert2\<close>
  to the \<open>Float\<close> type allocates new storage holding the integer cast to \<open>double\<close>
  and stored by the type; \<open>convert2\<close> of that result back to the \<open>Int\<close> type
  allocates new storage that holds the original integer.
\<close>

theorem int_float_int_roundtrip:
  assumes "gv_type v = Some ti" and "kind ti = IntK" and "kind tf = FloatK"
    and "self ti \<noteq> self tf"
    and "cells h (gv_value v) = Some (IntCell i)" and "wf_heap h"
    and "- (2 ^ 63) \<le> intGet ti i" and "intGet ti i < 2 ^ 63"
    and "fits_double (intGet ti i)"
    and "floatGet tf (floatSet tf (of_int (intGet ti i))) = of_int (intGet ti i)"
    and "intSet ti (intGet ti i) = i"
  shows "convert2 (Suc n) v tf h =
           Some ((\<lparr>gv_type = Some tf, gv_value = nxt h\<rparr>, True),
                 snd (alloc (FloatCell (floatSet tf (int64_to_double (intGet ti i)))) h))
       \<and> cells h (nxt h) = None
       \<and> convert2 (Suc m) \<lparr>gv_type = Some tf, gv_value = nxt h\<rparr> ti
             (snd (alloc (FloatCell (floatSet tf (int64_to_double (intGet ti i)))) h)) =
           Some ((\<lparr>gv_type = Some ti, gv_value = nxt h + 1\<rparr>, True),
                 snd (alloc (IntCell i)
                   (snd (alloc (FloatCell (floatSet tf (int64_to_double (intGet ti i)))) h))))
       \<and> cells (snd (alloc (FloatCell (floatSet tf (int64_to_double (intGet ti i)))) h))
             (nxt h + 1) = None"
proof -
  let ?x = "intGet ti i"
  let ?h1 = "snd (alloc (FloatCell (floatSet tf (int64_to_double ?x))) h)"
  let ?w = "\<lparr>gv_type = Some tf, gv_value = nxt h\<rparr>"
  have ex: "int64_to_double ?x = of_int ?x"
    using assms(9) by (rule int64_to_double_exact)
  have c1: "convert2 (Suc n) v tf h = Some ((?w, True), ?h1)"
    using assms(1-6) by (rule convert2_int_to_float)
  have wf1: "wf_heap ?h1"
    using assms(6) by (rule wf_heap_alloc)
  have cell1: "cells ?h1 (gv_value ?w) = Some (FloatCell (floatSet tf (int64_to_double ?x)))"
    by (simp add: alloc_def)
  have tr: "double_to_int64 (floatGet tf (floatSet tf (int64_to_double ?x))) = Some ?x"
    using assms(7,8,10) by (simp add: ex double_to_int64_of_int)
  have ns: "self tf \<noteq> self ti" using assms(4) by simp
  have "convert2 (Suc m) ?w ti ?h1 =
      Some ((\<lparr>gv_type = Some ti, gv_value = nxt ?h1\<rparr>, True), snd (alloc (IntCell (intSet ti ?x)) ?h1))"
    by (rule convert2_float_to_int [OF _ assms(3) assms(2) ns cell1 wf1 tr]) simp
  then have c2: "convert2 (Suc m) ?w ti ?h1 =
      Some ((\<lparr>gv_type = Some ti, gv_value = nxt h + 1\<rparr>, True), snd (alloc (IntCell i) ?h1))"
    by (simp add: assms(11) alloc_def)
  have fresh: "cells h (nxt h) = None" "cells ?h1 (nxt h + 1) = None"
    using assms(6) wf1 by (simp_all add: wf_heap_def alloc_def)
  from c1 c2 fresh show ?thesis by simp
qed

theorem int_float_int_roundtrip_witness:
  "convert2 (Suc 0) exInt tDouble exHeap =
     Some ((\<lparr>gv_type = Some tDouble, gv_value = 100\<rparr>, True), snd (alloc (FloatCell 7) exHeap))
   \<and> convert2 (Suc 0) \<lparr>gv_type = Some tDouble, gv_value = 100\<rparr> tInt32
         (snd (alloc (FloatCell 7) exHeap)) =
     Some ((\<lparr>gv_type = Some tInt32, gv_value = 101\<rparr>, True),
           snd (alloc (IntCell 7) (snd (alloc (FloatCell 7) exHeap))))"
proof -
  have f: "fits_double 7" by (rule fits_double_small) simp
  have wf: "wf_heap exHeap" by (simp add: wf_heap_def exHeap_def)
  have g: "intGet tInt32 7 = 7" "intSet tInt32 7 = 7" "floatSet tDouble 7 = 7"
    "floatGet tDouble 7 = 7"
    by (simp_all add: ex_types int32_set_def)
  have c: "cells exHeap (gv_value exInt) = Some (IntCell 7)" "nxt exHeap = 100"
    by (simp_all add: exHeap_def exInt_def)
  have k: "gv_type exInt = Some tInt32" "kind tInt32 = IntK"
    "kind tDouble = FloatK" "self tInt32 \<noteq> self tDouble"
    by (simp_all add: exInt_def ex_types)
  have e: "int64_to_double 7 = 7"
    using int64_to_double_exact [OF f] by simp
  have "convert2 (Suc 0) exInt tDouble exHeap =
           Some ((\<lparr>gv_type = Some tDouble, gv_value = nxt exHeap\<rparr>, True),
                 snd (alloc (FloatCell (floatSet tDouble (int64_to_double (intGet tInt32 7)))) exHeap))
       \<and> cells exHeap (nxt exHeap) = None
       \<and> convert2 (Suc 0) \<lparr>gv_type = Some tDouble, gv_value = nxt exHeap\<rparr> tInt32
             (snd (alloc (FloatCell (floatSet tDouble (int64_to_double (intGet tInt32 7)))) exHeap)) =
           Some ((\<lparr>gv_type = Some tInt32, gv_value = nxt exHeap + 1\<rparr>, True),
                 snd (alloc (IntCell 7)
                   (snd (alloc (FloatCell (floatSet tDouble (int64_to_double (intGet tInt32 7)))) exHeap))))
       \<and> cells (snd (alloc (FloatCell (floatSet tDouble (int64_to_double (intGet tInt32 7)))) exHeap))
             (nxt exHeap + 1) = None"
    by (rule int_float_int_roundtrip [OF k c(1) wf]) (simp_all add: g f)
  then show ?thesis
    unfolding g e c(2) by (simp only: conj_assoc one_add_one numeral_plus_one) simp
qed


section \<open>Theorems: clone and \<open>convertCopy\<close>\<close>

lemma those_eq_Some: "those xs = Some ys \<longleftrightarrow> xs = map Some ys"
  by (induction xs arbitrary: ys) (auto split: option.splits)

lemma those_map_mono:
  assumes "those (map f xs) = Some ys"
    and "\<And>x y. x \<in> set xs \<Longrightarrow> f x = Some y \<Longrightarrow> g x = Some y"
  shows "those (map g xs) = Some ys"
  using assms
proof (induction xs arbitrary: ys)
  case Nil
  then show ?case by simp
next
  case (Cons x xs)
  from Cons.prems(1) obtain y zs where y: "f x = Some y" and zs: "those (map f xs) = Some zs"
    and ys: "ys = y # zs"
    by (auto split: option.splits)
  from Cons.prems(2) [of x y] y have "g x = Some y" by simp
  moreover from Cons.IH [OF zs] Cons.prems(2) have "those (map g xs) = Some zs" by simp
  ultimately show ?case using ys by simp
qed

lemma map_le_cell: "cells h \<subseteq>\<^sub>m cells h' \<Longrightarrow> cells h x = Some c \<Longrightarrow> cells h' x = Some c"
  by (metis domI map_le_def)

lemma readFields_mono:
  assumes "readFields h a n = Some ws" and "cells h \<subseteq>\<^sub>m cells h'"
  shows "readFields h' a n = Some ws"
  using assms(1) unfolding readFields_def
proof (rule those_map_mono)
  fix i w
  assume "(case cells h (a + int i) of Some (FieldCell w) \<Rightarrow> Some w | _ \<Rightarrow> None) = Some w"
  then have "cells h (a + int i) = Some (FieldCell w)"
    by (auto split: option.splits Cell.splits)
  from map_le_cell [OF assms(2) this]
  show "(case cells h' (a + int i) of Some (FieldCell w) \<Rightarrow> Some w | _ \<Rightarrow> None) = Some w"
    by simp
qed

lemma absval_mono:
  "absval n h v = Some a \<Longrightarrow> cells h \<subseteq>\<^sub>m cells h' \<Longrightarrow> absval n h' v = Some a"
proof (induction n arbitrary: v a)
  case 0
  then show ?case by simp
next
  case (Suc n)
  note le = Suc.prems(2)
  show ?case
  proof (cases "gv_type v")
    case None
    with Suc.prems show ?thesis by simp
  next
    case (Some t)
    show ?thesis
    proof (cases "shape t")
      case SValue
      with Suc.prems(1) Some obtain g b where c: "cells h (gv_value v) = Some (ValueCell g)"
        and b: "absval n h g = Some b" and a: "a = ADynamic b"
        by (auto split: option.splits Cell.splits)
      from Suc.IH [OF b le] map_le_cell [OF le c] Some SValue a show ?thesis by simp
    next
      case SObject
      with Suc.prems(1) Some obtain g b where c: "cells h (gv_value v) = Some (ObjectCell g)"
        and b: "absval n h g = Some b" and a: "a = AObject b"
        by (auto split: option.splits Cell.splits)
      from Suc.IH [OF b le] map_le_cell [OF le c] Some SObject a show ?thesis by simp
    next
      case SInt
      with Suc.prems(1) Some obtain i where c: "cells h (gv_value v) = Some (IntCell i)"
        and a: "a = AInt i"
        by (auto split: option.splits Cell.splits)
      from map_le_cell [OF le c] Some SInt a show ?thesis by simp
    next
      case SFloat
      with Suc.prems(1) Some obtain i where c: "cells h (gv_value v) = Some (FloatCell i)"
        and a: "a = AFloat i"
        by (auto split: option.splits Cell.splits)
      from map_le_cell [OF le c] Some SFloat a show ?thesis by simp
    next
      case SString
      with Suc.prems(1) Some obtain i where c: "cells h (gv_value v) = Some (StringCell i)"
        and a: "a = AString i"
        by (auto split: option.splits Cell.splits)
      from map_le_cell [OF le c] Some SString a show ?thesis by simp
    next
      case SList
      with Suc.prems(1) Some obtain e xs bs where c: "cells h (gv_value v) = Some (ListCell e xs)"
        and b: "those (map (\<lambda>x. absval n h \<lparr>gv_type = Some e, gv_value = x\<rparr>) xs) = Some bs"
        and a: "a = AList bs"
        by (auto split: option.splits Cell.splits)
      have "those (map (\<lambda>x. absval n h' \<lparr>gv_type = Some e, gv_value = x\<rparr>) xs) = Some bs"
        using b by (rule those_map_mono) (rule Suc.IH [OF _ le])
      with map_le_cell [OF le c] Some SList a show ?thesis by simp
    next
      case SNative
      with Suc.prems(1) Some obtain ws where r: "readFields h (gv_value v) (objectSize t) = Some ws"
        and a: "a = ANative ws"
        by (auto split: option.splits Cell.splits)
      from readFields_mono [OF r le] Some SNative a show ?thesis
        by (simp split: option.splits Cell.splits)
    qed
  qed
qed


lemma grows_refl: "wf_heap h \<Longrightarrow> grows h h"
  by (simp add: grows_def)

lemma grows_trans: "grows h h1 \<Longrightarrow> grows h1 h2 \<Longrightarrow> grows h h2"
  by (auto simp: grows_def)

lemma grows_alloc: "wf_heap h \<Longrightarrow> grows h (snd (alloc c h))"
  by (auto simp: grows_def wf_heap_def alloc_def)

lemma grows_allocBlock: "wf_heap h \<Longrightarrow> grows h (snd (allocBlock cs h))"
  by (auto simp: grows_def wf_heap_def allocBlock_def)

lemma grows_wf: "grows h h' \<Longrightarrow> wf_heap h'"
  by (simp add: grows_def)

lemma grows_map_le: "wf_heap h \<Longrightarrow> grows h h' \<Longrightarrow> cells h \<subseteq>\<^sub>m cells h'"
  unfolding map_le_def grows_def wf_heap_def
  by (metis domIff not_le_imp_less)

lemma newStorage_grows:
  "wf_heap h1 \<Longrightarrow> grows h1 h2 \<Longrightarrow> cells (newStorage h h1) \<subseteq>\<^sub>m cells (newStorage h h2)"
proof -
  assume wf: "wf_heap h1" and g: "grows h1 h2"
  have "cells h2 a = Some y" if "cells h1 a = Some y" for a y
  proof -
    from that wf have "a < nxt h1" unfolding wf_heap_def by (metis not_le_imp_less option.distinct(1))
    with g that show ?thesis by (simp add: grows_def)
  qed
  then show ?thesis
    unfolding map_le_def newStorage_def by (auto simp: dom_def)
qed

lemma newStorage_later:
  "nxt h \<le> nxt h1 \<Longrightarrow> cells (newStorage h1 h2) \<subseteq>\<^sub>m cells (newStorage h h2)"
  unfolding map_le_def newStorage_def
  by (auto simp: dom_def)

lemma newStorage_le: "cells (newStorage h h') \<subseteq>\<^sub>m cells h'"
  unfolding map_le_def newStorage_def by (auto simp: dom_def)

lemma gv_eta: "gv_type r = Some e \<Longrightarrow> \<lparr>gv_type = Some e, gv_value = gv_value r\<rparr> = r"
  by (cases r) simp

lemma mapH_clone:
  assumes IH: "\<And>v a h. absval n h v = Some a \<Longrightarrow> wf_heap h \<Longrightarrow>
                 \<exists>r h'. clone n v h = Some (r, h') \<and> cloned n v a h r h'"
  shows "those (map (\<lambda>x. absval n h \<lparr>gv_type = Some e, gv_value = x\<rparr>) xs) = Some bs \<Longrightarrow>
         wf_heap h \<Longrightarrow>
         \<exists>ys h'. mapH (\<lambda>x. clone n \<lparr>gv_type = Some e, gv_value = x\<rparr>) xs h = Some (ys, h')
           \<and> grows h h'
           \<and> those (map (\<lambda>x. absval n (newStorage h h') \<lparr>gv_type = Some e, gv_value = x\<rparr>)
                 (map gv_value ys)) = Some bs"
proof (induction xs arbitrary: h bs)
  case Nil
  then show ?case by (auto simp: grows_refl)
next
  case (Cons x xs)
  let ?v = "\<lambda>x. \<lparr>gv_type = Some e, gv_value = x\<rparr>"
  from Cons.prems(1) obtain b cs where b: "absval n h (?v x) = Some b"
    and cs: "those (map (\<lambda>x. absval n h (?v x)) xs) = Some cs" and bs: "bs = b # cs"
    by (auto split: option.splits)
  from IH [OF b Cons.prems(2)] obtain r h1 where c: "clone n (?v x) h = Some (r, h1)"
    and cl: "cloned n (?v x) b h r h1"
    by blast
  from cl have g1: "grows h h1" and r: "absval n (newStorage h h1) r = Some b"
    and tr: "gv_type r = Some e"
    by (simp_all add: cloned_def)
  note wf1 = grows_wf [OF g1]
  have "those (map (\<lambda>x. absval n h1 (?v x)) xs) = Some cs"
    using cs by (rule those_map_mono) (rule absval_mono [OF _ grows_map_le [OF Cons.prems(2) g1]])
  from Cons.IH [OF this wf1] obtain ys h2
    where m: "mapH (\<lambda>x. clone n (?v x)) xs h1 = Some (ys, h2)" and g2: "grows h1 h2"
      and ys: "those (map (\<lambda>x. absval n (newStorage h1 h2) (?v x)) (map gv_value ys)) = Some cs"
    by blast
  have n01: "nxt h \<le> nxt h1" using g1 by (simp add: grows_def)
  have "absval n (newStorage h h2) r = Some b"
    using r by (rule absval_mono) (rule newStorage_grows [OF wf1 g2])
  then have r2: "absval n (newStorage h h2) (?v (gv_value r)) = Some b"
    by (simp add: gv_eta [OF tr])
  have ys2: "those (map (\<lambda>x. absval n (newStorage h h2) (?v x)) (map gv_value ys)) = Some cs"
    using ys by (rule those_map_mono) (rule absval_mono [OF _ newStorage_later [OF n01]])
  from c m r2 ys2 bs grows_trans [OF g1 g2] show ?case by simp
qed


lemma readFields_length: "readFields h a n = Some ws \<Longrightarrow> length ws = n"
  unfolding readFields_def those_eq_Some
  by (metis length_map length_upt minus_nat.diff_0)

lemma readFields_allocBlock:
  "readFields (newStorage h (snd (allocBlock (map FieldCell ws) h))) (nxt h) (length ws) = Some ws"
proof -
  have "map (\<lambda>i. case cells (newStorage h (snd (allocBlock (map FieldCell ws) h))) (nxt h + int i) of
                  Some (FieldCell w) \<Rightarrow> Some w | _ \<Rightarrow> None) [0..<length ws]
        = map (\<lambda>i. Some (ws ! i)) [0..<length ws]"
    by (rule map_cong) (simp_all add: newStorage_def allocBlock_def)
  also have "\<dots> = map Some (map (\<lambda>i. ws ! i) [0..<length ws])"
    by simp
  also have "map (\<lambda>i. ws ! i) [0..<length ws] = ws"
    by (rule map_nth)
  finally show ?thesis
    unfolding readFields_def those_eq_Some .
qed

lemma clone_correct:
  "absval n h v = Some a \<Longrightarrow> wf_heap h \<Longrightarrow>
   \<exists>r h'. clone n v h = Some (r, h') \<and> cloned n v a h r h'"
proof (induction n arbitrary: v a h)
  case 0
  then show ?case by simp
next
  case (Suc n)
  note wf = Suc.prems(2)
  show ?case
  proof (cases "gv_type v")
    case None
    with Suc.prems show ?thesis
      by (simp add: cloned_def GenericValue_empty_def grows_refl)
  next
    case (Some t)
    have fresh_cell: "cloned (Suc n) v a h \<lparr>gv_type = Some t, gv_value = nxt h\<rparr> (snd (alloc c h))"
      if "absval (Suc n) (newStorage h (snd (alloc c h))) \<lparr>gv_type = Some t, gv_value = nxt h\<rparr> = Some a"
      for c
      using that Some grows_alloc [OF wf] by (simp add: cloned_def)
    show ?thesis
    proof (cases "shape t")
      case SInt
      with Suc.prems(1) Some obtain i where c: "cells h (gv_value v) = Some (IntCell i)"
        and a: "a = AInt i"
        by (auto split: option.splits Cell.splits)
      have "cloned (Suc n) v a h \<lparr>gv_type = Some t, gv_value = nxt h\<rparr> (snd (alloc (IntCell i) h))"
        by (rule fresh_cell) (simp add: SInt a newStorage_def alloc_def)
      with c Some SInt show ?thesis by (simp add: alloc_def)
    next
      case SFloat
      with Suc.prems(1) Some obtain i where c: "cells h (gv_value v) = Some (FloatCell i)"
        and a: "a = AFloat i"
        by (auto split: option.splits Cell.splits)
      have "cloned (Suc n) v a h \<lparr>gv_type = Some t, gv_value = nxt h\<rparr> (snd (alloc (FloatCell i) h))"
        by (rule fresh_cell) (simp add: SFloat a newStorage_def alloc_def)
      with c Some SFloat show ?thesis by (simp add: alloc_def)
    next
      case SString
      with Suc.prems(1) Some obtain i where c: "cells h (gv_value v) = Some (StringCell i)"
        and a: "a = AString i"
        by (auto split: option.splits Cell.splits)
      have "cloned (Suc n) v a h \<lparr>gv_type = Some t, gv_value = nxt h\<rparr> (snd (alloc (StringCell i) h))"
        by (rule fresh_cell) (simp add: SString a newStorage_def alloc_def)
      with c Some SString show ?thesis by (simp add: alloc_def)
    next
      case SValue
      with Suc.prems(1) Some obtain g b where c: "cells h (gv_value v) = Some (ValueCell g)"
        and b: "absval n h g = Some b" and a: "a = ADynamic b"
        by (auto split: option.splits Cell.splits)
      from Suc.IH [OF b wf] obtain g' h1 where cl: "clone n g h = Some (g', h1)"
        and p: "cloned n g b h g' h1"
        by blast
      from p have g1: "grows h h1" and v1: "absval n (newStorage h h1) g' = Some b"
        by (simp_all add: cloned_def)
      note wf1 = grows_wf [OF g1]
      let ?h2 = "snd (alloc (ValueCell g') h1)"
      have g2: "grows h1 ?h2" by (rule grows_alloc [OF wf1])
      have n01: "nxt h \<le> nxt h1" using g1 by (simp add: grows_def)
      have "absval n (newStorage h ?h2) g' = Some b"
        using v1 by (rule absval_mono) (rule newStorage_grows [OF wf1 g2])
      then have "absval (Suc n) (newStorage h ?h2) \<lparr>gv_type = Some t, gv_value = nxt h1\<rparr> = Some a"
        using n01 by (simp add: SValue a newStorage_def alloc_def)
      then have "cloned (Suc n) v a h \<lparr>gv_type = Some t, gv_value = nxt h1\<rparr> ?h2"
        using Some grows_trans [OF g1 g2] n01 by (simp add: cloned_def)
      with c cl Some SValue show ?thesis by (simp add: alloc_def)
    next
      case SObject
      with Suc.prems(1) Some obtain g b where c: "cells h (gv_value v) = Some (ObjectCell g)"
        and b: "absval n h g = Some b" and a: "a = AObject b"
        by (auto split: option.splits Cell.splits)
      from Suc.IH [OF b wf] obtain g' h1 where cl: "clone n g h = Some (g', h1)"
        and p: "cloned n g b h g' h1"
        by blast
      from p have g1: "grows h h1" and v1: "absval n (newStorage h h1) g' = Some b"
        by (simp_all add: cloned_def)
      note wf1 = grows_wf [OF g1]
      let ?h2 = "snd (alloc (ObjectCell g') h1)"
      have g2: "grows h1 ?h2" by (rule grows_alloc [OF wf1])
      have n01: "nxt h \<le> nxt h1" using g1 by (simp add: grows_def)
      have "absval n (newStorage h ?h2) g' = Some b"
        using v1 by (rule absval_mono) (rule newStorage_grows [OF wf1 g2])
      then have "absval (Suc n) (newStorage h ?h2) \<lparr>gv_type = Some t, gv_value = nxt h1\<rparr> = Some a"
        using n01 by (simp add: SObject a newStorage_def alloc_def)
      then have "cloned (Suc n) v a h \<lparr>gv_type = Some t, gv_value = nxt h1\<rparr> ?h2"
        using Some grows_trans [OF g1 g2] n01 by (simp add: cloned_def)
      with c cl Some SObject show ?thesis by (simp add: alloc_def)
    next
      case SList
      with Suc.prems(1) Some obtain e xs bs where c: "cells h (gv_value v) = Some (ListCell e xs)"
        and b: "those (map (\<lambda>x. absval n h \<lparr>gv_type = Some e, gv_value = x\<rparr>) xs) = Some bs"
        and a: "a = AList bs"
        by (auto split: option.splits Cell.splits)
      from mapH_clone [OF Suc.IH b wf] obtain ys h1
        where m: "mapH (\<lambda>x. clone n \<lparr>gv_type = Some e, gv_value = x\<rparr>) xs h = Some (ys, h1)"
          and g1: "grows h h1"
          and v1: "those (map (\<lambda>x. absval n (newStorage h h1) \<lparr>gv_type = Some e, gv_value = x\<rparr>)
                 (map gv_value ys)) = Some bs"
        by blast
      note wf1 = grows_wf [OF g1]
      let ?h2 = "snd (alloc (ListCell e (map gv_value ys)) h1)"
      have g2: "grows h1 ?h2" by (rule grows_alloc [OF wf1])
      have n01: "nxt h \<le> nxt h1" using g1 by (simp add: grows_def)
      have "those (map (\<lambda>x. absval n (newStorage h ?h2) \<lparr>gv_type = Some e, gv_value = x\<rparr>)
                 (map gv_value ys)) = Some bs"
        using v1 by (rule those_map_mono) (rule absval_mono [OF _ newStorage_grows [OF wf1 g2]])
      moreover have "cells (newStorage h ?h2) (nxt h1) = Some (ListCell e (map gv_value ys))"
        using n01 by (simp add: newStorage_def alloc_def)
      ultimately have "absval (Suc n) (newStorage h ?h2) \<lparr>gv_type = Some t, gv_value = nxt h1\<rparr> = Some a"
        by (simp add: SList a)
      then have "cloned (Suc n) v a h \<lparr>gv_type = Some t, gv_value = nxt h1\<rparr> ?h2"
        using Some grows_trans [OF g1 g2] n01 by (simp add: cloned_def)
      with c m Some SList show ?thesis by (simp add: alloc_def)
    next
      case SNative
      with Suc.prems(1) Some obtain ws where r: "readFields h (gv_value v) (objectSize t) = Some ws"
        and a: "a = ANative ws"
        by (auto split: option.splits Cell.splits)
      let ?h1 = "snd (allocBlock (map FieldCell ws) h)"
      from readFields_allocBlock [of h ws] readFields_length [OF r]
      have "readFields (newStorage h ?h1) (nxt h) (objectSize t) = Some ws" by simp
      then have "absval (Suc n) (newStorage h ?h1) \<lparr>gv_type = Some t, gv_value = nxt h\<rparr> = Some a"
        by (simp add: SNative a split: option.splits Cell.splits)
      then have "cloned (Suc n) v a h \<lparr>gv_type = Some t, gv_value = nxt h\<rparr> ?h1"
        using Some grows_allocBlock [OF wf] by (simp add: cloned_def)
      with r Some SNative show ?thesis
        by (simp add: allocBlock_def split: option.splits Cell.splits)
    qed
  qed
qed


lemma convert_same_type:
  assumes "gv_type v = Some T" and "info T \<noteq> genericValueInfo" and "info T \<noteq> genericObjectInfo"
  shows "convert d (Suc n) v T h = Some ((v, False), h)"
  using assms by simp

text \<open>
  C4, as stated, fails at the \<open>GenericValue\<close> type: the value at 13 is a
  \<open>GenericValue\<close> wrapping the \<open>int\<close> 7, and its \<open>convertCopy\<close> to its own type is a
  \<open>GenericValue\<close> wrapping a \<open>GenericValue\<close> wrapping 7, since \<open>convert\<close> tests "target
  is metavalue" before it compares the types.
\<close>

theorem convertCopy_dynamic_counterexample:
  "gv_type exMeta = Some tDynamic
   \<and> absval (Suc (Suc (Suc 0))) exHeap exMeta = Some (ADynamic (AInt 7))
   \<and> valueAfter (Suc (Suc (Suc 0))) (convertCopy exDyn (Suc (Suc (Suc 0))) exMeta tDynamic exHeap)
       = Some (ADynamic (ADynamic (AInt 7)))"
  by (simp add: exMeta_def exHeap_def ex_types valueAfter_def convertCopy_def alloc_def shape_def)

text \<open>
  C4, amended. \<open>convertCopy\<close> converts in place and clones exactly when the
  conversion reported \<open>owns_new_storage = false\<close>: an owned result is returned as it
  is, in the store the conversion left, and a view is cloned. For a value \<open>v\<close> of a
  type \<open>T\<close> that is neither erased wrapper, of whatever kind, whose storage holds a
  value of that type: \<open>convert\<close> to \<open>T\<close> returns \<open>v\<close> itself as a view, so \<open>convertCopy\<close>
  returns the clone of \<open>v\<close>; it has type \<open>T\<close> and denotes the same value as \<open>v\<close>,
  which itself is unchanged; its storage is new, and it denotes its value by the
  newly allocated storage alone, whatever becomes of the storage that existed before.
\<close>

theorem convertCopy_same_type:
  "(convert d n v U h = Some ((r1, True), h1) \<longrightarrow> convertCopy d n v U h = Some (r1, h1))
   \<and> (convert d n v U h = Some ((r1, False), h1) \<longrightarrow> convertCopy d n v U h = clone n r1 h1)
   \<and> (gv_type v = Some T \<and> info T \<noteq> genericValueInfo \<and> info T \<noteq> genericObjectInfo
        \<and> absval n h v = Some a \<and> wf_heap h \<longrightarrow>
       (\<exists>r h'. convert d n v T h = Some ((v, False), h)
           \<and> convertCopy d n v T h = Some (r, h')
           \<and> clone n v h = Some (r, h')
           \<and> gv_type r = Some T
           \<and> absval n h' r = Some a
           \<and> absval n h' v = Some a
           \<and> grows h h'
           \<and> nxt h \<le> gv_value r
           \<and> absval n (newStorage h h') r = Some a))"
proof (intro conjI impI)
  assume "convert d n v U h = Some ((r1, True), h1)"
  then show "convertCopy d n v U h = Some (r1, h1)" by (simp add: convertCopy_def)
next
  assume "convert d n v U h = Some ((r1, False), h1)"
  then show "convertCopy d n v U h = clone n r1 h1" by (simp add: convertCopy_def)
next
  assume "gv_type v = Some T \<and> info T \<noteq> genericValueInfo \<and> info T \<noteq> genericObjectInfo
        \<and> absval n h v = Some a \<and> wf_heap h"
  then have ty: "gv_type v = Some T" "info T \<noteq> genericValueInfo" "info T \<noteq> genericObjectInfo"
    and av: "absval n h v = Some a" and wf: "wf_heap h"
    by simp_all
  from av obtain m where n: "n = Suc m" by (cases n) auto
  have c: "convert d n v T h = Some ((v, False), h)"
    unfolding n using ty by (rule convert_same_type)
  from clone_correct [OF av wf] obtain r h' where cl: "clone n v h = Some (r, h')"
    and p: "cloned n v a h r h'"
    by blast
  from p ty(1) have t: "gv_type r = Some T" and g: "grows h h'"
    and nv: "absval n (newStorage h h') r = Some a" and fr: "nxt h \<le> gv_value r"
    by (simp_all add: cloned_def)
  have r: "absval n h' r = Some a"
    using nv by (rule absval_mono) (rule newStorage_le)
  have v: "absval n h' v = Some a"
    using av by (rule absval_mono) (rule grows_map_le [OF wf g])
  have "convertCopy d n v T h = Some (r, h')"
    by (simp add: convertCopy_def c cl)
  with c cl t r v g fr nv
  show "\<exists>r h'. convert d n v T h = Some ((v, False), h)
           \<and> convertCopy d n v T h = Some (r, h')
           \<and> clone n v h = Some (r, h')
           \<and> gv_type r = Some T
           \<and> absval n h' r = Some a
           \<and> absval n h' v = Some a
           \<and> grows h h'
           \<and> nxt h \<le> gv_value r
           \<and> absval n (newStorage h h') r = Some a"
    by blast
qed

lemma upt_0_2: "[0..<2] = [0, Suc 0]"
  by (simp add: numeral_2_eq_2 upt_rec)

theorem convertCopy_same_type_witness:
  "convertCopy exDyn (Suc 0) exDerived tInt32 exHeap
     = Some (\<lparr>gv_type = Some tInt32, gv_value = 100\<rparr>,
             exHeap\<lparr>cells := (cells exHeap)(100 \<mapsto> IntCell 0), nxt := 101,
                    logged := [''Cast error Derived -> int'']\<rparr>)
   \<and> convertCopy exDyn (Suc 0) exDerived tBase exHeap
       = clone (Suc 0) \<lparr>gv_type = Some tBase, gv_value = 22\<rparr> exHeap
   \<and> convertCopy exDyn (Suc 0) exDerived tBase exHeap
       = Some (\<lparr>gv_type = Some tBase, gv_value = 100\<rparr>, snd (allocBlock [FieldCell 3] exHeap))
   \<and> convertCopy exDyn (Suc 0) exInt tInt32 exHeap
     = Some (\<lparr>gv_type = Some tInt32, gv_value = 100\<rparr>, snd (alloc (IntCell 7) exHeap))
   \<and> (\<exists>r h'. convertCopy exDyn (Suc 0) exInt tInt32 exHeap = Some (r, h')
          \<and> clone (Suc 0) exInt exHeap = Some (r, h')
          \<and> absval (Suc 0) h' r = Some (AInt 7)
          \<and> absval (Suc 0) (newStorage exHeap h') r = Some (AInt 7))
   \<and> (\<exists>r h'. convertCopy exDyn (Suc 0) exMap tMapIntInt exHeap = Some (r, h')
          \<and> gv_value r = 100
          \<and> absval (Suc 0) h' r = Some (ANative [5, 6])
          \<and> absval (Suc 0) (newStorage exHeap h') r = Some (ANative [5, 6]))"
proof -
  have wf: "wf_heap exHeap" by (simp add: wf_heap_def exHeap_def)
  have o: "convert exDyn (Suc 0) exDerived tInt32 exHeap =
     Some ((\<lparr>gv_type = Some tInt32, gv_value = 100\<rparr>, True),
           exHeap\<lparr>cells := (cells exHeap)(100 \<mapsto> IntCell 0), nxt := 101,
                  logged := [''Cast error Derived -> int'']\<rparr>)"
    by (simp add: exDerived_def ex_types inherits_def exHeap_def exDyn_def alloc_def
        qiLogWarning_def castError_def throughValue_def)
  have p1: "convertCopy exDyn (Suc 0) exDerived tInt32 exHeap
     = Some (\<lparr>gv_type = Some tInt32, gv_value = 100\<rparr>,
             exHeap\<lparr>cells := (cells exHeap)(100 \<mapsto> IntCell 0), nxt := 101,
                    logged := [''Cast error Derived -> int'']\<rparr>)"
    using convertCopy_same_type [of exDyn "Suc 0" exDerived tInt32 exHeap] o by blast
  have a: "absval (Suc 0) exHeap exInt = Some (AInt 7)"
    by (simp add: exInt_def exHeap_def ex_types shape_def)
  have t: "gv_type exInt = Some tInt32" "info tInt32 \<noteq> genericValueInfo"
    "info tInt32 \<noteq> genericObjectInfo"
    by (simp_all add: exInt_def ex_types)
  have e: "convertCopy exDyn (Suc 0) exInt tInt32 exHeap
     = Some (\<lparr>gv_type = Some tInt32, gv_value = 100\<rparr>, snd (alloc (IntCell 7) exHeap))"
    by (simp add: convertCopy_def exInt_def exHeap_def ex_types shape_def alloc_def)
  have p3: "\<exists>r h'. convertCopy exDyn (Suc 0) exInt tInt32 exHeap = Some (r, h')
          \<and> clone (Suc 0) exInt exHeap = Some (r, h')
          \<and> absval (Suc 0) h' r = Some (AInt 7)
          \<and> absval (Suc 0) (newStorage exHeap h') r = Some (AInt 7)"
    using convertCopy_same_type [of exDyn "Suc 0" exInt tInt32 exHeap _ _ tInt32 "AInt 7"] t a wf
    by blast
  have am: "absval (Suc 0) exHeap exMap = Some (ANative [5, 6])"
    by (simp add: exMap_def exHeap_def ex_types shape_def readFields_def upt_0_2)
  have tm: "gv_type exMap = Some tMapIntInt" "info tMapIntInt \<noteq> genericValueInfo"
    "info tMapIntInt \<noteq> genericObjectInfo"
    by (simp_all add: exMap_def ex_types)
  have cm: "clone (Suc 0) exMap exHeap
      = Some (\<lparr>gv_type = Some tMapIntInt, gv_value = 100\<rparr>,
              snd (allocBlock [FieldCell 5, FieldCell 6] exHeap))"
    by (simp add: exMap_def exHeap_def ex_types shape_def readFields_def allocBlock_def upt_0_2)
  have p4: "\<exists>r h'. convertCopy exDyn (Suc 0) exMap tMapIntInt exHeap = Some (r, h')
          \<and> gv_value r = 100
          \<and> absval (Suc 0) h' r = Some (ANative [5, 6])
          \<and> absval (Suc 0) (newStorage exHeap h') r = Some (ANative [5, 6])"
    using convertCopy_same_type [of exDyn "Suc 0" exMap tMapIntInt exHeap _ _ tMapIntInt "ANative [5, 6]"]
      tm am wf cm
    by auto
  have w: "convert exDyn (Suc 0) exDerived tBase exHeap
      = Some ((\<lparr>gv_type = Some tBase, gv_value = 22\<rparr>, False), exHeap)"
    by (simp add: exDerived_def ex_types inherits_def)
  have p2: "convertCopy exDyn (Suc 0) exDerived tBase exHeap
       = clone (Suc 0) \<lparr>gv_type = Some tBase, gv_value = 22\<rparr> exHeap"
    using convertCopy_same_type [of exDyn "Suc 0" exDerived tBase exHeap] w by blast
  have cb: "clone (Suc 0) \<lparr>gv_type = Some tBase, gv_value = 22\<rparr> exHeap
       = Some (\<lparr>gv_type = Some tBase, gv_value = 100\<rparr>, snd (allocBlock [FieldCell 3] exHeap))"
    by (simp add: exHeap_def ex_types shape_def readFields_def allocBlock_def)
  from p1 p2 cb e p3 p4 show ?thesis by simp
qed

section \<open>Theorems: the list conversion\<close>




















































lemma strings_to_ints_no_result: "convert2 n exStrings tListInt32 exHeap = None"
proof (cases n)
  case 0
  then show ?thesis by simp
next
  case (Suc m)
  show ?thesis
  proof (cases m)
    case 0
    with Suc show ?thesis
      by (simp add: exStrings_def exHeap_def ex_types initializeStorage_def alloc_def
          convertElement_def Let_def)
  next
    case (Suc k)
    with \<open>n = Suc m\<close> show ?thesis
      by (simp add: exStrings_def exHeap_def ex_types initializeStorage_def alloc_def
          convertElement_def pushBack_def GenericValue_empty_def Let_def)
  qed
qed






end
